theory Spec2Isabelle
  imports Complex_Main
begin

section \<open>JavaScript numbers\<close>

text \<open>
  A \<^verbatim>\<open>number\<close> of the analyzer is a \<open>jsnum\<close>: a finite value, one of the two
  infinities, or NaN.  The operators \<open>+\<close>, \<open>-\<close>, \<open>*\<close>, \<open>/\<close> below give the special
  values as IEEE 754 and JavaScript do (\<open>x / 0\<close> is an infinity for \<open>x \<noteq> 0\<close>;
  \<open>0 / 0\<close>, \<open>0 * Infinity\<close> and \<open>Infinity - Infinity\<close> are NaN; NaN is absorbing and
  compares false with everything), and on two finite operands they give the exact real
  result.  The function \<open>double\<close> then rounds an exact result to the nearest binary64
  value, ties to even, with gradual underflow and overflow to an infinity: the
  JavaScript expression \<^verbatim>\<open>x + y\<close> is \<open>double (x + y)\<close>.  The sign of zero is not
  represented (a zero divisor counts as \<open>+0\<close>, which is what \<open>endTime - startTime\<close>
  yields for equal clock readings).

  Rounding is applied where a statement below is about the value of a computed number:
  in the matrix product and in the generated matrices.  The derived metrics of a trial,
  the fit and the progress percentage are written with the exact operators; what is
  stated about them is only which of them are zero, NaN, infinite, finite or
  non-negative for the inputs at hand.

  Integer-valued quantities that the program only counts with (matrix sizes, loop
  indices, the operation counter) are natural numbers; a double holds them exactly
  below \<open>2 ^ 53\<close>.
\<close>

datatype jsnum = Fin real | PosInf | NegInf | NaN

fun of_sign :: "real \<Rightarrow> jsnum" where
  "of_sign r = (if r > 0 then PosInf else if r < 0 then NegInf else NaN)"

fun js_sign :: "jsnum \<Rightarrow> real" where
  "js_sign (Fin x) = sgn x"
| "js_sign PosInf = 1"
| "js_sign NegInf = -1"
| "js_sign NaN = 0"

instantiation jsnum :: comm_monoid_add
begin

definition zero_jsnum :: jsnum where
  "zero_jsnum = Fin 0"

fun plus_jsnum :: "jsnum \<Rightarrow> jsnum \<Rightarrow> jsnum" where
  "plus_jsnum NaN y = NaN"
| "plus_jsnum x NaN = NaN"
| "plus_jsnum (Fin x) (Fin y) = Fin (x + y)"
| "plus_jsnum PosInf NegInf = NaN"
| "plus_jsnum NegInf PosInf = NaN"
| "plus_jsnum PosInf y = PosInf"
| "plus_jsnum x PosInf = PosInf"
| "plus_jsnum NegInf y = NegInf"
| "plus_jsnum x NegInf = NegInf"

instance
proof
  fix x y z :: jsnum
  show "0 + x = x"
    by (cases x) (simp_all add: zero_jsnum_def)
  show "x + y = y + x"
    by (cases x; cases y) simp_all
  show "x + y + z = x + (y + z)"
    by (cases x; cases y; cases z) simp_all
qed

end

instantiation jsnum :: "{uminus, minus, times, inverse, abs}"
begin

fun uminus_jsnum :: "jsnum \<Rightarrow> jsnum" where
  "uminus_jsnum (Fin x) = Fin (- x)"
| "uminus_jsnum PosInf = NegInf"
| "uminus_jsnum NegInf = PosInf"
| "uminus_jsnum NaN = NaN"

definition minus_jsnum :: "jsnum \<Rightarrow> jsnum \<Rightarrow> jsnum" where
  "minus_jsnum x y = x + (- y)"

fun times_jsnum :: "jsnum \<Rightarrow> jsnum \<Rightarrow> jsnum" where
  "times_jsnum NaN y = NaN"
| "times_jsnum x NaN = NaN"
| "times_jsnum (Fin x) (Fin y) = Fin (x * y)"
| "times_jsnum x y = of_sign (js_sign x * js_sign y)"

fun divide_jsnum :: "jsnum \<Rightarrow> jsnum \<Rightarrow> jsnum" where
  "divide_jsnum NaN y = NaN"
| "divide_jsnum x NaN = NaN"
| "divide_jsnum (Fin x) (Fin y) = (if y = 0 then of_sign x else Fin (x / y))"
| "divide_jsnum (Fin x) y = Fin 0"
| "divide_jsnum x (Fin y) = of_sign (js_sign x * (if y < 0 then -1 else 1))"
| "divide_jsnum x y = NaN"

definition inverse_jsnum :: "jsnum \<Rightarrow> jsnum" where
  "inverse_jsnum x = divide (Fin 1) x"

text \<open>\<^verbatim>\<open>Math.abs\<close>\<close>

fun abs_jsnum :: "jsnum \<Rightarrow> jsnum" where
  "abs_jsnum (Fin x) = Fin \<bar>x\<bar>"
| "abs_jsnum PosInf = PosInf"
| "abs_jsnum NegInf = PosInf"
| "abs_jsnum NaN = NaN"

instance ..

end

text \<open>The comparisons \<^verbatim>\<open><\<close>, \<^verbatim>\<open>>\<close> and \<^verbatim>\<open>!==\<close>: any comparison with NaN is false,
  except \<^verbatim>\<open>!==\<close>, which is then true.\<close>

fun js_lt :: "jsnum \<Rightarrow> jsnum \<Rightarrow> bool" where
  "js_lt NaN y = False"
| "js_lt x NaN = False"
| "js_lt (Fin x) (Fin y) = (x < y)"
| "js_lt x NegInf = False"
| "js_lt NegInf y = True"
| "js_lt PosInf y = False"
| "js_lt x PosInf = True"

definition js_gt :: "jsnum \<Rightarrow> jsnum \<Rightarrow> bool" where
  "js_gt x y = js_lt y x"

definition js_strict_ne :: "jsnum \<Rightarrow> jsnum \<Rightarrow> bool" where
  "js_strict_ne x y = (x = NaN \<or> y = NaN \<or> x \<noteq> y)"

text \<open>\<^verbatim>\<open>Math.min(x, y)\<close> and \<^verbatim>\<open>Math.max(x, y)\<close> are NaN as soon as one argument is;
  \<^verbatim>\<open>Math.max(...xs)\<close> starts from \<open>-Infinity\<close>.\<close>

definition js_min :: "jsnum \<Rightarrow> jsnum \<Rightarrow> jsnum" where
  "js_min x y = (if x = NaN \<or> y = NaN then NaN else if js_lt y x then y else x)"

definition js_max :: "jsnum \<Rightarrow> jsnum \<Rightarrow> jsnum" where
  "js_max x y = (if x = NaN \<or> y = NaN then NaN else if js_lt x y then y else x)"

definition js_max_list :: "jsnum list \<Rightarrow> jsnum" where
  "js_max_list xs = foldl js_max NegInf xs"

text \<open>\<^verbatim>\<open>Math.pow(x, k)\<close> for the two constant exponents the program uses (2 and 3),
  and \<^verbatim>\<open>Math.sqrt\<close>.\<close>

fun js_pow :: "jsnum \<Rightarrow> nat \<Rightarrow> jsnum" where
  "js_pow (Fin x) k = Fin (x ^ k)"
| "js_pow PosInf k = (if k = 0 then Fin 1 else PosInf)"
| "js_pow NegInf k = (if k = 0 then Fin 1 else if even k then PosInf else NegInf)"
| "js_pow NaN k = (if k = 0 then Fin 1 else NaN)"

fun js_sqrt :: "jsnum \<Rightarrow> jsnum" where
  "js_sqrt (Fin x) = (if x < 0 then NaN else Fin (sqrt x))"
| "js_sqrt PosInf = PosInf"
| "js_sqrt NegInf = NaN"
| "js_sqrt NaN = NaN"

text \<open>A natural number used as a \<^verbatim>\<open>number\<close>.\<close>

definition num :: "nat \<Rightarrow> jsnum" where
  "num k = Fin (real k)"

definition is_finite :: "jsnum \<Rightarrow> bool" where
  "is_finite x = (case x of Fin r \<Rightarrow> True | _ \<Rightarrow> False)"

text \<open>\<open>x >= 0\<close> as JavaScript evaluates it: false for NaN.\<close>

definition js_nonneg :: "jsnum \<Rightarrow> bool" where
  "js_nonneg x = (case x of Fin r \<Rightarrow> 0 \<le> r | PosInf \<Rightarrow> True | _ \<Rightarrow> False)"

section \<open>Rounding to binary64\<close>

text \<open>
  A finite double is \<open>m * 2 ^ e\<close> for integers \<open>m\<close> and \<open>e\<close> with \<open>\<bar>m\<bar> < 2 ^ 53\<close> and
  \<open>-1074 \<le> e \<le> 971\<close>.  For \<open>x \<noteq> 0\<close> the spacing of the doubles around \<open>x\<close> is \<open>2 ^ e\<close>
  with \<open>e = max \<lfloor>log\<^sub>2 \<bar>x\<bar>\<rfloor> (-1022) - 52\<close>; \<open>x\<close> is rounded to the nearest multiple of
  it, a tie going to the even multiple, and a result of magnitude \<open>2 ^ 1024\<close> is an
  infinity.
\<close>

definition round_half_even :: "real \<Rightarrow> int" where
  "round_half_even x =
     (let f = \<lfloor>x\<rfloor>; d = x - of_int f
      in if d < 1 / 2 then f else if 1 / 2 < d then f + 1 else if even f then f else f + 1)"

definition round64 :: "real \<Rightarrow> jsnum" where
  "round64 x =
     (if x = 0 then Fin 0
      else
        (let e = max \<lfloor>log 2 \<bar>x\<bar>\<rfloor> (- 1022) - 52;
             y = of_int (round_half_even (x / 2 powi e)) * 2 powi e
         in if 2 ^ 1024 \<le> \<bar>y\<bar> then (if 0 < x then PosInf else NegInf) else Fin y))"

fun double :: "jsnum \<Rightarrow> jsnum" where
  "double (Fin x) = round64 x"
| "double v = v"

text \<open>A number that is an integer of absolute value at most \<open>M\<close>.\<close>

fun small_int :: "int \<Rightarrow> jsnum \<Rightarrow> bool" where
  "small_int M (Fin x) = (of_int \<lfloor>x\<rfloor> = x \<and> \<bar>x\<bar> \<le> of_int M)"
| "small_int M v = False"

section \<open>Arrays, exceptions and loops\<close>

text \<open>
  Arrays are lists.  Reading \<^verbatim>\<open>xs[i]\<close> past the end yields \<^verbatim>\<open>undefined\<close> (\<open>None\<close>);
  indexing \<^verbatim>\<open>undefined\<close> throws a TypeError, and \<^verbatim>\<open>undefined\<close> in arithmetic is NaN.
  The program writes \<^verbatim>\<open>xs[i] = v\<close> only at \<open>i \<le> length xs\<close> (its loops count up from
  0 over a fresh array), where the write replaces an element or appends one; a write
  further out would leave holes, which lists do not represent, and is modelled as an
  append as well.
\<close>

datatype js_error = TypeError | RangeError

definition js_index :: "'a list \<Rightarrow> nat \<Rightarrow> 'a option" where
  "js_index xs i = (if i < length xs then Some (xs ! i) else None)"

definition js_store :: "'a list \<Rightarrow> nat \<Rightarrow> 'a \<Rightarrow> 'a list" where
  "js_store xs i v = (if i < length xs then xs[i := v] else xs @ [v])"

definition to_number :: "jsnum option \<Rightarrow> jsnum" where
  "to_number v = (case v of None \<Rightarrow> NaN | Some x \<Rightarrow> x)"

text \<open>\<^verbatim>\<open>for (let i = i0; i < n; i++) body\<close>, over a state that the body updates;
  the second form is for a body that can throw.\<close>

function for_loop :: "nat \<Rightarrow> nat \<Rightarrow> (nat \<Rightarrow> 's \<Rightarrow> 's) \<Rightarrow> 's \<Rightarrow> 's" where
  "for_loop i n body s = (if i < n then for_loop (Suc i) n body (body i s) else s)"
  by pat_completeness auto
termination
  by (relation "measure (\<lambda>(i, n, body, s). n - i)") auto

function for_loop_throwing ::
  "nat \<Rightarrow> nat \<Rightarrow> (nat \<Rightarrow> 's \<Rightarrow> js_error + 's) \<Rightarrow> 's \<Rightarrow> js_error + 's" where
  "for_loop_throwing i n body s =
     (if i < n then
        (case body i s of
           Inl e \<Rightarrow> Inl e
         | Inr s' \<Rightarrow> for_loop_throwing (Suc i) n body s')
      else Inr s)"
  by pat_completeness auto
termination
  by (relation "measure (\<lambda>(i, n, body, s). n - i)") auto

declare for_loop.simps [simp del] for_loop_throwing.simps [simp del]

section \<open>Matrix multiplication with operation counting\<close>

type_synonym matrix = "jsnum list list"

record product =
  result :: matrix
  flops :: nat

text \<open>The first loop nest of \<^verbatim>\<open>multiplyMatricesWithFLOPS\<close>: \<^verbatim>\<open>result[i] = []\<close>, then
  \<^verbatim>\<open>result[i][j] = 0\<close> for each \<open>j\<close>.\<close>

definition init_result :: "nat \<Rightarrow> matrix" where
  "init_result n =
     for_loop 0 n
       (\<lambda>i r. for_loop 0 n (\<lambda>j r. r[i := js_store (r ! i) j 0]) (js_store r i []))
       []"

text \<open>The innermost statement pair:
  \<^verbatim>\<open>result[i][j] += a[i][k] * b[k][j]; flops += 2\<close>.  The product is rounded, then
  the sum.\<close>

definition multiply_step ::
  "matrix \<Rightarrow> matrix \<Rightarrow> nat \<Rightarrow> nat \<Rightarrow> nat \<Rightarrow> product \<Rightarrow> js_error + product" where
  "multiply_step a b i j k p =
     (case js_index a i of
        None \<Rightarrow> Inl TypeError
      | Some a_i \<Rightarrow>
          (case js_index b k of
             None \<Rightarrow> Inl TypeError
           | Some b_k \<Rightarrow>
               Inr \<lparr>result = (result p)[i := (result p ! i)
                             [j := double (result p ! i ! j
                                     + double (to_number (js_index a_i k)
                                               * to_number (js_index b_k j)))]],
                    flops = flops p + 2\<rparr>))"

definition multiplyMatricesWithFLOPS :: "matrix \<Rightarrow> matrix \<Rightarrow> nat \<Rightarrow> js_error + product" where
  "multiplyMatricesWithFLOPS a b n =
     for_loop_throwing 0 n
       (\<lambda>i. for_loop_throwing 0 n
          (\<lambda>j. for_loop_throwing 0 n
             (\<lambda>k. multiply_step a b i j k)))
       \<lparr>result = init_result n, flops = 0\<rparr>"

text \<open>\<^verbatim>\<open>generateRandomMatrix\<close>; \<open>rnd i j\<close> is the value \<^verbatim>\<open>Math.random()\<close> returns when
  cell \<open>(i, j)\<close> is filled.\<close>

definition generateRandomMatrix :: "(nat \<Rightarrow> nat \<Rightarrow> real) \<Rightarrow> nat \<Rightarrow> matrix" where
  "generateRandomMatrix rnd n =
     for_loop 0 n
       (\<lambda>i m. for_loop 0 n (\<lambda>j m. m[i := js_store (m ! i) j (double (Fin (rnd i j) * Fin 10))])
                 (js_store m i []))
       []"

text \<open>An \<open>n \<times> n\<close> matrix: \<open>n\<close> rows of \<open>n\<close> numbers each.\<close>

definition square :: "nat \<Rightarrow> matrix \<Rightarrow> bool" where
  "square n m = (length m = n \<and> (\<forall>row \<in> set m. length row = n))"

section \<open>Trial runner\<close>

text \<open>
  What the environment supplies to one iteration of the trial loop of
  \<^verbatim>\<open>measureFLOPS\<close>: the values of \<^verbatim>\<open>Math.random()\<close> for the two matrices, the two
  readings of \<^verbatim>\<open>performance.now()\<close> (finite, in milliseconds), and the exception, if
  any, that the runtime raises during the trial (an allocation failure, say).
\<close>

record trial =
  randomA :: "nat \<Rightarrow> nat \<Rightarrow> real"
  randomB :: "nat \<Rightarrow> nat \<Rightarrow> real"
  startTime :: real
  endTime :: real
  failure :: "js_error option"

text \<open>The arrays \<^verbatim>\<open>times\<close>, \<^verbatim>\<open>flopsResults\<close>, \<^verbatim>\<open>teraflopsSecondsResults\<close> and the variable
  \<^verbatim>\<open>totalFLOPS\<close> of \<^verbatim>\<open>measureFLOPS\<close>.\<close>

record samples =
  times_ms :: "jsnum list"
  flopsResults :: "jsnum list"
  teraflopsSecondsResults :: "jsnum list"
  totalFLOPS :: nat

text \<open>The object \<^verbatim>\<open>measureFLOPS\<close> returns; its field \<^verbatim>\<open>flops\<close> is \<open>m_flops\<close>.\<close>

record measurement =
  avgTime :: jsnum
  stdDev :: jsnum
  m_flops :: nat
  avgFLOPS :: jsnum
  gflops :: jsnum
  teraflops :: jsnum
  teraflopsSeconds :: jsnum

text \<open>The derived values of one trial, from the operation count and the two clock
  readings: the elapsed milliseconds, \<^verbatim>\<open>currentFLOPS\<close> and \<^verbatim>\<open>teraflopsSeconds\<close>.\<close>

definition trial_metrics :: "nat \<Rightarrow> real \<Rightarrow> real \<Rightarrow> jsnum \<times> jsnum \<times> jsnum" where
  "trial_metrics fl t0 t1 =
     (let timeInSeconds = (Fin t1 - Fin t0) / Fin 1000;
          currentFLOPS = num fl / timeInSeconds;
          teraflopsPerSecond = currentFLOPS / Fin (10 ^ 12);
          tfs = timeInSeconds * teraflopsPerSecond
      in (Fin t1 - Fin t0, currentFLOPS, tfs))"

text \<open>One iteration of the trial loop.\<close>

definition measure_trial :: "nat \<Rightarrow> trial \<Rightarrow> samples \<Rightarrow> js_error + samples" where
  "measure_trial n tr acc =
     (case failure tr of
        Some e \<Rightarrow> Inl e
      | None \<Rightarrow>
          (let matrixA = generateRandomMatrix (randomA tr) n;
               matrixB = generateRandomMatrix (randomB tr) n
           in case multiplyMatricesWithFLOPS matrixA matrixB n of
                Inl e \<Rightarrow> Inl e
              | Inr p \<Rightarrow>
                  (case trial_metrics (flops p) (startTime tr) (endTime tr) of
                     (elapsed, currentFLOPS, tfs) \<Rightarrow>
                       Inr \<lparr>times_ms = times_ms acc @ [elapsed],
                            flopsResults = flopsResults acc @ [currentFLOPS],
                            teraflopsSecondsResults = teraflopsSecondsResults acc @ [tfs],
                            totalFLOPS = flops p\<rparr>)))"

text \<open>\<^verbatim>\<open>xs.reduce((sum, x) => sum + x, 0) / xs.length\<close>\<close>

definition average :: "jsnum list \<Rightarrow> jsnum" where
  "average xs = foldl (\<lambda>sum x. sum + x) 0 xs / num (length xs)"

definition measureFLOPS :: "(nat \<Rightarrow> trial) \<Rightarrow> nat \<Rightarrow> nat \<Rightarrow> js_error + measurement" where
  "measureFLOPS trials n numMeasurements =
     (case for_loop_throwing 0 numMeasurements (\<lambda>i. measure_trial n (trials i))
             \<lparr>times_ms = [], flopsResults = [], teraflopsSecondsResults = [], totalFLOPS = 0\<rparr> of
        Inl e \<Rightarrow> Inl e
      | Inr acc \<Rightarrow>
          (let avg = average (times_ms acc);
               variance = foldl (\<lambda>sum t. sum + js_pow (t - avg) 2) 0 (times_ms acc)
                          / num (length (times_ms acc));
               avgF = average (flopsResults acc)
           in Inr \<lparr>avgTime = avg,
                   stdDev = js_sqrt variance,
                   m_flops = totalFLOPS acc,
                   avgFLOPS = avgF,
                   gflops = avgF / Fin (10 ^ 9),
                   teraflops = avgF / Fin (10 ^ 12),
                   teraflopsSeconds = average (teraflopsSecondsResults acc)\<rparr>))"

section \<open>Cubic fit\<close>

text \<open>\<^verbatim>\<open>DataPoint\<close>; the fields carry the prefix \<open>dp_\<close>.\<close>

record DataPoint =
  dp_n :: nat
  dp_time :: jsnum
  dp_operations :: nat
  dp_flops :: jsnum
  dp_gflops :: jsnum
  dp_teraflops :: jsnum
  dp_teraflopsSeconds :: jsnum
  dp_theoretical :: jsnum
  dp_standardDeviation :: "jsnum option"

text \<open>The object \<^verbatim>\<open>fitCubicCurve\<close> returns: \<^verbatim>\<open>{ a, b, c, rSquared }\<close>.\<close>

record fit =
  fit_a :: jsnum
  fit_b :: jsnum
  fit_c :: jsnum
  fit_rSquared :: jsnum

definition fitCubicCurve :: "DataPoint list \<Rightarrow> fit" where
  "fitCubicCurve dataPoints =
     (let n = length dataPoints in
      if n < 3 then \<lparr>fit_a = 0, fit_b = 0, fit_c = 0, fit_rSquared = 0\<rparr>
      else
        (case fold (\<lambda>point (sumN3, sumN6, sumTN3, sumT).
                      let n3 = js_pow (num (dp_n point)) 3
                      in (sumN3 + n3, sumN6 + js_pow n3 2,
                          sumTN3 + dp_time point * n3, sumT + dp_time point))
                   dataPoints (0, 0, 0, 0) of
           (sumN3, sumN6, sumTN3, sumT) \<Rightarrow>
             (let denominator = num n * sumN6 - sumN3 * sumN3;
                  a = (if js_strict_ne denominator 0
                       then (num n * sumTN3 - sumT * sumN3) / denominator else 0);
                  avgT = sumT / num n;
                  avgN3 = sumN3 / num n;
                  c = avgT - a * avgN3;
                  b = 0;
                  avgY = foldl (\<lambda>sum p. sum + dp_time p) 0 dataPoints / num n
              in case fold (\<lambda>point (ssRes, ssTot).
                              let predicted = a * js_pow (num (dp_n point)) 3
                                              + b * js_pow (num (dp_n point)) 2 + c
                              in (ssRes + js_pow (dp_time point - predicted) 2,
                                  ssTot + js_pow (dp_time point - avgY) 2))
                           dataPoints (0, 0) of
                   (ssRes, ssTot) \<Rightarrow>
                     \<lparr>fit_a = \<bar>a\<bar>, fit_b = \<bar>b\<bar>, fit_c = \<bar>c\<bar>,
                      fit_rSquared = (if js_gt ssTot 0
                                      then js_max 0 (Fin 1 - ssRes / ssTot) else 0)\<rparr>)))"

section \<open>Sweep controller\<close>

text \<open>\<^verbatim>\<open>AnalysisResult\<close>.  Strings are byte lists, non-ASCII characters in UTF-8.\<close>

record AnalysisResult =
  dataPoints :: "DataPoint list"
  complexity :: string
  rSquared :: jsnum
  coefficients :: fit
  theoreticalCoeff :: jsnum
  avgGFLOPS :: jsnum
  maxTFLOPS :: jsnum
  totalTeraflopsSeconds :: jsnum

text \<open>The state of the component (the \<^verbatim>\<open>useState\<close> cells) and what \<^verbatim>\<open>console.error\<close>
  has logged.\<close>

record app_state =
  startN :: nat
  endN :: nat
  step :: nat
  measurements :: nat
  isRunning :: bool
  progress :: jsnum
  results :: "AnalysisResult option"
  currentTest :: string
  console :: "js_error list"

text \<open>The local variables of a call of \<^verbatim>\<open>runAnalysis\<close> that is suspended at the
  \<^verbatim>\<open>await\<close> of its loop: the four inputs its closure captured, the loop variable,
  \<^verbatim>\<open>dataPoints\<close> and \<^verbatim>\<open>totalTeraflopsSeconds\<close>.\<close>

record sweep =
  sw_startN :: nat
  sw_endN :: nat
  sw_step :: nat
  sw_measurements :: nat
  sw_n :: nat
  sw_dataPoints :: "DataPoint list"
  sw_totalTeraflopsSeconds :: jsnum

text \<open>Decimal rendering of a number in a template string.\<close>

function digits :: "nat \<Rightarrow> string" where
  "digits k = (if k < 10 then [char_of (48 + k)]
               else digits (k div 10) @ [char_of (48 + k mod 10)])"
  by pat_completeness auto
termination
  by (relation "measure (\<lambda>k. k)") auto

definition test_label :: "nat \<Rightarrow> nat \<Rightarrow> string" where
  "test_label n m =
     ''Calculando TERAFLOPS-segundos para matrices '' @ digits n @ [CHR 0xC3, CHR 0x97]
     @ digits n @ '' ('' @ digits m @ '' mediciones)''"

text \<open>The body of the sweep loop for the size \<open>sw_n\<close>, up to the \<^verbatim>\<open>await\<close>; \<open>env n i\<close>
  is what the environment supplies to trial \<open>i\<close> of size \<open>n\<close>.  The state is returned
  in both cases, with the exception if one was thrown.\<close>

definition loop_body ::
  "(nat \<Rightarrow> nat \<Rightarrow> trial) \<Rightarrow> sweep \<Rightarrow> app_state \<Rightarrow> (js_error + sweep) \<times> app_state" where
  "loop_body env sw s =
     (let n = sw_n sw;
          s1 = s\<lparr>currentTest := test_label n (sw_measurements sw)\<rparr>
      in case measureFLOPS (env n) n (sw_measurements sw) of
           Inl e \<Rightarrow> (Inl e, s1)
         | Inr m \<Rightarrow>
             (let theoreticalOps = Fin 2 * js_pow (num n) 3 - js_pow (num n) 2;
                  theoretical = theoreticalOps * Fin 0.000001;
                  point = \<lparr>dp_n = n, dp_time = avgTime m, dp_operations = m_flops m,
                           dp_flops = avgFLOPS m, dp_gflops = gflops m,
                           dp_teraflops = teraflops m,
                           dp_teraflopsSeconds = teraflopsSeconds m,
                           dp_theoretical = theoretical,
                           dp_standardDeviation = Some (stdDev m)\<rparr>;
                  currentProgress = ((num n - num (sw_startN sw))
                                     / (num (sw_endN sw) - num (sw_startN sw))) * Fin 100
              in (Inr (sw\<lparr>sw_dataPoints := sw_dataPoints sw @ [point],
                          sw_totalTeraflopsSeconds :=
                            sw_totalTeraflopsSeconds sw + teraflopsSeconds m\<rparr>),
                  s1\<lparr>progress := js_min currentProgress (Fin 100)\<rparr>)))"

text \<open>The code between the loop and the end of the \<^verbatim>\<open>try\<close> block.\<close>

definition publish :: "sweep \<Rightarrow> app_state \<Rightarrow> app_state" where
  "publish sw s =
     (let dps = sw_dataPoints sw;
          coeffs = fitCubicCurve dps;
          tc = (if length dps > 1
                then dp_time (last dps) / js_pow (num (dp_n (last dps))) 3 else 0);
          avgG = foldl (\<lambda>sum p. sum + dp_gflops p) 0 dps / num (length dps);
          maxT = js_max_list (map dp_teraflops dps);
          label = (if js_gt (fit_rSquared coeffs) (Fin 0.9)
                   then ''O(n'' @ [CHR 0xC2, CHR 0xB3] @ '')''
                   else if js_gt (fit_rSquared coeffs) (Fin 0.7)
                   then [CHR 0xE2, CHR 0x89, CHR 0x88] @ '' O(n'' @ [CHR 0xC2, CHR 0xB3] @ '')''
                   else ''Complejo'')
      in s\<lparr>results := Some \<lparr>dataPoints = dps, complexity = label,
                             rSquared = fit_rSquared coeffs, coefficients = coeffs,
                             theoreticalCoeff = tc, avgGFLOPS = avgG, maxTFLOPS = maxT,
                             totalTeraflopsSeconds = sw_totalTeraflopsSeconds sw\<rparr>\<rparr>)"

text \<open>The \<^verbatim>\<open>catch\<close> and \<^verbatim>\<open>finally\<close> blocks.\<close>

definition catch_block :: "js_error \<Rightarrow> app_state \<Rightarrow> app_state" where
  "catch_block e s = s\<lparr>console := console s @ [e]\<rparr>"

definition finally_block :: "app_state \<Rightarrow> app_state" where
  "finally_block s = s\<lparr>isRunning := False, currentTest := [], progress := 0\<rparr>"

text \<open>A call of \<^verbatim>\<open>runAnalysis\<close> runs from the loop test \<^verbatim>\<open>n <= endN\<close> either to the next
  \<^verbatim>\<open>await\<close>, where it is suspended (\<open>Some\<close> of its local variables), or to its end
  (\<open>None\<close>).\<close>

definition continue_sweep ::
  "(nat \<Rightarrow> nat \<Rightarrow> trial) \<Rightarrow> sweep \<Rightarrow> app_state \<Rightarrow> sweep option \<times> app_state" where
  "continue_sweep env sw s =
     (if sw_n sw \<le> sw_endN sw then
        (case loop_body env sw s of
           (Inl e, s') \<Rightarrow> (None, finally_block (catch_block e s'))
         | (Inr sw', s') \<Rightarrow> (Some sw', s'))
      else (None, finally_block (publish sw s)))"

text \<open>The call itself, up to its first \<^verbatim>\<open>await\<close> or its end.\<close>

definition start_sweep ::
  "(nat \<Rightarrow> nat \<Rightarrow> trial) \<Rightarrow> app_state \<Rightarrow> sweep option \<times> app_state" where
  "start_sweep env s =
     (if isRunning s then (None, s)
      else continue_sweep env
             \<lparr>sw_startN = startN s, sw_endN = endN s, sw_step = step s,
              sw_measurements = measurements s, sw_n = startN s,
              sw_dataPoints = [], sw_totalTeraflopsSeconds = 0\<rparr>
             (s\<lparr>isRunning := True, progress := 0, results := None, currentTest := []\<rparr>))"

text \<open>The timer of the \<^verbatim>\<open>await\<close> fires: \<^verbatim>\<open>n += step\<close>, then the loop test.\<close>

definition resume_sweep ::
  "(nat \<Rightarrow> nat \<Rightarrow> trial) \<Rightarrow> sweep \<Rightarrow> app_state \<Rightarrow> sweep option \<times> app_state" where
  "resume_sweep env sw s = continue_sweep env (sw\<lparr>sw_n := sw_n sw + sw_step sw\<rparr>) s"

text \<open>\<^verbatim>\<open>runAnalysis\<close> run to completion, with no other event between its steps.  The
  loop does not end when \<open>step = 0\<close> and \<open>startN \<le> endN\<close>, unless a trial throws:
  the value is then \<open>None\<close>.\<close>

partial_function (option) run_to_end ::
  "(nat \<Rightarrow> nat \<Rightarrow> trial) \<Rightarrow> sweep option \<times> app_state \<Rightarrow> app_state option" where
  "run_to_end env c =
     (case c of
        (None, s) \<Rightarrow> Some s
      | (Some sw, s) \<Rightarrow> run_to_end env (resume_sweep env sw s))"

definition runAnalysis :: "(nat \<Rightarrow> nat \<Rightarrow> trial) \<Rightarrow> app_state \<Rightarrow> app_state option" where
  "runAnalysis env s = run_to_end env (start_sweep env s)"







section \<open>Loops as invariants\<close>

lemma for_loop_rule:
  assumes "i \<le> n" and "P i s"
    and "\<And>k t. i \<le> k \<Longrightarrow> k < n \<Longrightarrow> P k t \<Longrightarrow> P (Suc k) (body k t)"
  shows "P n (for_loop i n body s)"
  using assms
proof (induction i n body s rule: for_loop.induct)
  case (1 i n body s)
  show ?case
  proof (cases "i < n")
    case True
    have "P n (for_loop (Suc i) n body (body i s))"
    proof (rule 1(1)[OF True])
      show "Suc i \<le> n" using True by simp
      show "P (Suc i) (body i s)" using 1(3,4) True by simp
      show "\<And>k t. Suc i \<le> k \<Longrightarrow> k < n \<Longrightarrow> P k t \<Longrightarrow> P (Suc k) (body k t)"
        using 1(4) by simp
    qed
    with True show ?thesis by (subst for_loop.simps) simp
  next
    case False
    with 1(2,3) show ?thesis by (subst for_loop.simps) simp
  qed
qed

lemma for_loop_throwing_rule:
  assumes "i \<le> n" and "P i s"
    and "\<And>k t. i \<le> k \<Longrightarrow> k < n \<Longrightarrow> P k t \<Longrightarrow> \<exists>t'. body k t = Inr t' \<and> P (Suc k) t'"
  shows "\<exists>t. for_loop_throwing i n body s = Inr t \<and> P n t"
  using assms
proof (induction i n body s rule: for_loop_throwing.induct)
  case (1 i n body s)
  show ?case
  proof (cases "i < n")
    case True
    from 1(4)[of i s] 1(3) True obtain t' where t': "body i s = Inr t'" "P (Suc i) t'"
      by auto
    have "\<exists>t. for_loop_throwing (Suc i) n body t' = Inr t \<and> P n t"
    proof (rule 1(1)[OF True t'(1)])
      show "Suc i \<le> n" using True by simp
      show "P (Suc i) t'" by (rule t'(2))
      show "\<And>k t. Suc i \<le> k \<Longrightarrow> k < n \<Longrightarrow> P k t \<Longrightarrow> \<exists>t'. body k t = Inr t' \<and> P (Suc k) t'"
        using 1(4) by simp
    qed
    with True t'(1) show ?thesis by (subst for_loop_throwing.simps) simp
  next
    case False
    with 1(2,3) show ?thesis by (subst for_loop_throwing.simps) simp
  qed
qed

lemma fill_row:
  assumes "i < length r0" and "r0 ! i = []"
  shows "for_loop 0 n (\<lambda>j r. r[i := js_store (r ! i) j (f j)]) r0 = r0[i := map f [0..<n]]"
proof (rule for_loop_rule[where P = "\<lambda>j r. r = r0[i := map f [0..<j]]"])
  show "r0 = r0[i := map f [0..<0]]" using assms list_update_id[of r0 i] by simp
next
  fix k t
  assume "t = r0[i := map f [0..<k]]"
  then show "t[i := js_store (t ! i) k (f k)] = r0[i := map f [0..<Suc k]]"
    using assms(1) by (simp add: js_store_def)
qed simp

lemma fill_matrix:
  "for_loop 0 n (\<lambda>i m. for_loop 0 n (\<lambda>j m. m[i := js_store (m ! i) j (f i j)]) (js_store m i [])) []
   = map (\<lambda>i. map (f i) [0..<n]) [0..<n]"
proof (rule for_loop_rule[where P = "\<lambda>i m. m = map (\<lambda>i. map (f i) [0..<n]) [0..<i]"])
  fix k t
  assume t: "t = map (\<lambda>i. map (f i) [0..<n]) [0..<k]"
  then have len: "length t = k" by simp
  have "for_loop 0 n (\<lambda>j m. m[k := js_store (m ! k) j (f k j)]) (js_store t k [])
        = (js_store t k [])[k := map (f k) [0..<n]]"
    by (rule fill_row) (simp_all add: js_store_def len nth_append)
  also have "\<dots> = map (\<lambda>i. map (f i) [0..<n]) [0..<Suc k]"
    using t by (simp add: js_store_def list_update_append)
  finally show "for_loop 0 n (\<lambda>j m. m[k := js_store (m ! k) j (f k j)]) (js_store t k [])
        = map (\<lambda>i. map (f i) [0..<n]) [0..<Suc k]" .
qed simp_all

lemma init_result_eq: "init_result n = replicate n (replicate n 0)"
  unfolding init_result_def by (simp add: fill_matrix map_replicate_const)

lemma generateRandomMatrix_eq:
  "generateRandomMatrix rnd n = map (\<lambda>i. map (\<lambda>j. round64 (rnd i j * 10)) [0..<n]) [0..<n]"
  unfolding generateRandomMatrix_def by (simp add: fill_matrix)

lemma square_generateRandomMatrix: "square n (generateRandomMatrix rnd n)"
  by (auto simp: generateRandomMatrix_eq square_def)

section \<open>Rounding: exact cases\<close>

lemma round_half_even_of_int: "round_half_even (of_int k) = k"
  by (simp add: round_half_even_def)

lemma two_powr_int: "(2::real) powr of_int e = 2 powi e"
  by (simp add: powr_real_of_int')

lemma round64_exact:
  assumes x: "x = of_int m * 2 powi e" and m: "\<bar>m\<bar> < 2 ^ 53"
    and lo: "- 1074 \<le> e" and hi: "e \<le> 971"
  shows "round64 x = Fin x"
proof (cases "m = 0")
  case True
  with x show ?thesis by (simp add: round64_def)
next
  case False
  have p: "(0::real) < 2 powi k" for k by (simp add: zero_less_power_int)
  have ax: "\<bar>x\<bar> = of_int \<bar>m\<bar> * 2 powi e"
    using p[of e] by (simp add: x abs_mult)
  have m1: "(1::real) \<le> of_int \<bar>m\<bar>"
    using False by (simp add: of_int_1_le_iff[symmetric] del: of_int_1_le_iff)
  have xpos: "0 < \<bar>x\<bar>" using ax m1 p[of e] by simp
  have low: "2 powi e \<le> \<bar>x\<bar>"
  proof -
    have "1 * 2 powi e \<le> of_int \<bar>m\<bar> * (2::real) powi e"
      using m1 p[of e] by (intro mult_right_mono) simp_all
    then show ?thesis unfolding ax by simp
  qed
  have "of_int \<bar>m\<bar> < (2::real) ^ 53" using m by (metis of_int_less_numeral_power_cancel_iff)
  then have "\<bar>x\<bar> < 2 ^ 53 * 2 powi e"
    unfolding ax using p[of e] by simp
  also have "\<dots> = 2 powi (e + 53)"
    by (simp add: power_int_add mult.commute)
  finally have up: "\<bar>x\<bar> < 2 powi (e + 53)" .
  define L where "L = \<lfloor>log 2 \<bar>x\<bar>\<rfloor>"
  have "log 2 \<bar>x\<bar> < of_int (e + 53)"
    using up xpos by (simp only: log_less_iff[OF _ xpos] two_powr_int)
  then have L2: "L < e + 53" by (simp add: L_def floor_less_iff)
  define q where "q = max L (- 1022) - 52"
  have qe: "q \<le> e" using L2 lo by (simp add: q_def)
  define d where "d = nat (e - q)"
  have e: "e = q + int d" using qe by (simp add: d_def)
  have pe: "(2::real) powi e = 2 powi q * 2 ^ d"
    unfolding e by (simp add: power_int_add)
  have quo: "x / 2 powi q = of_int (m * 2 ^ d)"
    using p[of q] by (simp add: x pe)
  have y: "of_int (round_half_even (x / 2 powi q)) * 2 powi q = x"
    unfolding quo round_half_even_of_int by (simp add: x pe)
  have "(2::real) powi (e + 53) \<le> 2 powi 1024"
    using hi by (intro power_int_increasing) simp_all
  with up have "\<bar>x\<bar> < 2 ^ 1024" by simp
  with y xpos show ?thesis
    by (simp add: round64_def Let_def L_def[symmetric] q_def[symmetric])
qed

lemma round64_int: "\<bar>z\<bar> < 2 ^ 53 \<Longrightarrow> round64 (of_int z) = Fin (of_int z)"
  using round64_exact[of "of_int z" z 0] by simp

lemma small_int_cases:
  assumes "small_int M v"
  obtains z where "v = Fin (of_int z)" and "\<bar>z\<bar> \<le> M"
proof (cases v)
  case (Fin x)
  with assms have x: "of_int \<lfloor>x\<rfloor> = x" and b: "\<bar>x\<bar> \<le> of_int M" by simp_all
  from b have "\<bar>of_int \<lfloor>x\<rfloor> :: real\<bar> \<le> of_int M" by (simp only: x)
  then have "\<bar>\<lfloor>x\<rfloor>\<bar> \<le> M" by (simp only: of_int_abs[symmetric] of_int_le_iff)
  moreover have "v = Fin (of_int \<lfloor>x\<rfloor>)" by (simp only: Fin x)
  ultimately show ?thesis using that[of "\<lfloor>x\<rfloor>"] by blast
qed (use assms in simp_all)

text \<open>When the terms are products of integers and the bound on the partial sums stays
  below \<open>2 ^ 53\<close>, the rounded accumulation of the inner loop rounds nothing.\<close>

lemma rounded_sum_exact:
  assumes small: "\<And>k. k < n \<Longrightarrow> small_int M (f k) \<and> small_int M (g k)"
    and bound: "int n * M * M < 2 ^ 53"
  shows "foldl (\<lambda>s k. double (s + double (f k * g k))) 0 [0..<n] = (\<Sum>k = 0..<n. f k * g k)"
proof -
  have "m \<le> n \<Longrightarrow>
        \<exists>z. \<bar>z\<bar> \<le> int m * M * M
          \<and> foldl (\<lambda>s k. double (s + double (f k * g k))) 0 [0..<m] = Fin (of_int z)
          \<and> (\<Sum>k = 0..<m. f k * g k) = Fin (of_int z)" for m
  proof (induction m)
    case 0
    show ?case by (simp add: zero_jsnum_def)
  next
    case (Suc m)
    then obtain z where z: "\<bar>z\<bar> \<le> int m * M * M"
      and acc: "foldl (\<lambda>s k. double (s + double (f k * g k))) 0 [0..<m] = Fin (of_int z)"
      and sm: "(\<Sum>k = 0..<m. f k * g k) = Fin (of_int z)"
      by auto
    from Suc.prems small[of m] have "small_int M (f m)" "small_int M (g m)" by simp_all
    then obtain x y where x: "f m = Fin (of_int x)" "\<bar>x\<bar> \<le> M"
      and y: "g m = Fin (of_int y)" "\<bar>y\<bar> \<le> M"
      by (elim small_int_cases) blast
    have M0: "0 \<le> M" using x(2) by simp
    have xy: "\<bar>x * y\<bar> \<le> M * M"
      unfolding abs_mult using x(2) y(2) by (intro mult_mono) simp_all
    have step: "\<bar>z + x * y\<bar> \<le> int (Suc m) * M * M"
      using z xy by (simp add: algebra_simps)
    have "int (Suc m) * M * M \<le> int n * M * M"
      using Suc.prems M0 by (intro mult_right_mono) simp_all
    with bound step have b1: "\<bar>z + x * y\<bar> < 2 ^ 53" by simp
    have "M * M \<le> int (Suc m) * M * M"
      using M0 by (simp add: algebra_simps)
    with xy step b1 have b2: "\<bar>x * y\<bar> < 2 ^ 53"
      using \<open>int (Suc m) * M * M \<le> int n * M * M\<close> bound by linarith
    have p: "double (f m * g m) = Fin (of_int (x * y))"
      using round64_int[OF b2] by (simp add: x y)
    have "foldl (\<lambda>s k. double (s + double (f k * g k))) 0 [0..<Suc m]
          = double (Fin (of_int z) + Fin (of_int (x * y)))"
      by (simp add: acc p)
    also have "\<dots> = Fin (of_int (z + x * y))"
      using round64_int[OF b1] by simp
    finally have 1: "foldl (\<lambda>s k. double (s + double (f k * g k))) 0 [0..<Suc m]
          = Fin (of_int (z + x * y))" .
    have 2: "(\<Sum>k = 0..<Suc m. f k * g k) = Fin (of_int (z + x * y))"
      by (simp add: sm x y)
    from step 1 2 show ?case by blast
  qed
  from this[of n] show ?thesis by auto
qed

text \<open>\<open>10 ^ 16\<close> is a double, \<open>10 ^ 16 + 1\<close> is not: it lies half-way between the doubles
  \<open>10 ^ 16\<close> and \<open>10 ^ 16 + 2\<close>, and the tie goes to the even multiple of 2.\<close>

lemma round64_tie: "round64 10000000000000001 = Fin 10000000000000000"
proof -
  have L: "\<lfloor>log 2 (10000000000000001::real)\<rfloor> = 53"
    by (subst floor_log_eq_powr_iff) (simp_all add: two_powr_int)
  have f: "\<lfloor>(10000000000000001::real) / 2\<rfloor> = 5000000000000000"
    by (rule floor_unique) simp_all
  have r: "round_half_even (10000000000000001 / 2) = 5000000000000000"
    by (simp add: round_half_even_def f Let_def)
  show ?thesis
    by (simp add: round64_def L r Let_def)
qed

section \<open>The product and its operation count\<close>

lemma multiply_step_square:
  assumes "square n a" "square n b" "i < n" "k < n" "j < n"
  shows "multiply_step a b i j k p =
         Inr \<lparr>result = (result p)[i := (result p ! i)
                         [j := double (result p ! i ! j + double (a ! i ! k * b ! k ! j))]],
              flops = flops p + 2\<rparr>"
  using assms by (simp add: multiply_step_def js_index_def square_def to_number_def)

lemma inner_loop:
  assumes sq: "square n a" "square n b" and ij: "i < n" "j < n"
    and dims: "i < length (result p)" "j < length (result p ! i)"
  shows "for_loop_throwing 0 n (multiply_step a b i j) p =
         Inr \<lparr>result = (result p)[i := (result p ! i)
                         [j := foldl (\<lambda>s k. double (s + double (a ! i ! k * b ! k ! j)))
                                 (result p ! i ! j) [0..<n]]],
              flops = flops p + 2 * n\<rparr>"
proof -
  let ?acc = "\<lambda>m. foldl (\<lambda>s k. double (s + double (a ! i ! k * b ! k ! j)))
                     (result p ! i ! j) [0..<m]"
  let ?P = "\<lambda>m t. t = \<lparr>result = (result p)[i := (result p ! i)[j := ?acc m]],
                        flops = flops p + 2 * m\<rparr>"
  have "\<exists>t. for_loop_throwing 0 n (multiply_step a b i j) p = Inr t \<and> ?P n t"
  proof (rule for_loop_throwing_rule[where P = ?P])
    show "?P 0 p" by (simp add: list_update_id)
  next
    fix k t
    assume k: "k < n" and t: "?P k t"
    show "\<exists>t'. multiply_step a b i j k t = Inr t' \<and> ?P (Suc k) t'"
      using dims by (simp add: multiply_step_square[OF sq ij(1) k ij(2)] t)
  qed simp
  then show ?thesis by auto
qed

lemma map_upt_update:
  "j < n \<Longrightarrow>
   (map (\<lambda>j'. if j' < j then u j' else v j') [0..<n])[j := u j]
   = map (\<lambda>j'. if j' < Suc j then u j' else v j') [0..<n]"
  by (auto intro!: nth_equalityI simp: nth_list_update less_Suc_eq)

lemma middle_loop:
  assumes sq: "square n a" "square n b" and i: "i < n"
    and dims: "i < length (result p)" "length (result p ! i) = n"
  shows "for_loop_throwing 0 n (\<lambda>j. for_loop_throwing 0 n (multiply_step a b i j)) p =
         Inr \<lparr>result = (result p)[i := map (\<lambda>j. foldl (\<lambda>s k. double (s + double (a ! i ! k * b ! k ! j)))
                                                (result p ! i ! j) [0..<n]) [0..<n]],
              flops = flops p + 2 * n * n\<rparr>"
proof -
  let ?S = "\<lambda>j. foldl (\<lambda>s k. double (s + double (a ! i ! k * b ! k ! j))) (result p ! i ! j) [0..<n]"
  let ?row = "\<lambda>m. map (\<lambda>j. if j < m then ?S j else result p ! i ! j) [0..<n]"
  let ?P = "\<lambda>m t. t = \<lparr>result = (result p)[i := ?row m], flops = flops p + 2 * n * m\<rparr>"
  have "\<exists>t. for_loop_throwing 0 n (\<lambda>j. for_loop_throwing 0 n (multiply_step a b i j)) p = Inr t
            \<and> ?P n t"
  proof (rule for_loop_throwing_rule[where P = ?P])
    have "?row 0 = result p ! i"
      using dims(2) by (auto intro!: nth_equalityI)
    then show "?P 0 p" by (simp add: list_update_id)
  next
    fix j t
    assume j: "j < n" and t: "?P j t"
    have d1: "i < length (result t)" and d2: "j < length (result t ! i)"
      using t dims j by simp_all
    have row: "result t ! i = ?row j" using t dims by simp
    have cell: "?row j ! j = result p ! i ! j" using j by simp
    have "(?row j)[j := ?S j] = ?row (Suc j)"
      using j map_upt_update[of j n ?S "\<lambda>j. result p ! i ! j"] by simp
    then show "\<exists>t'. for_loop_throwing 0 n (multiply_step a b i j) t = Inr t' \<and> ?P (Suc j) t'"
      unfolding inner_loop[OF sq i j d1 d2] row cell using t by simp
  qed simp
  moreover have "?row n = map ?S [0..<n]" by simp
  ultimately show ?thesis by simp
qed

lemma outer_loop:
  assumes sq: "square n a" "square n b" and dims: "square n (result p)"
  shows "for_loop_throwing 0 n
           (\<lambda>i. for_loop_throwing 0 n (\<lambda>j. for_loop_throwing 0 n (multiply_step a b i j))) p =
         Inr \<lparr>result = map (\<lambda>i. map (\<lambda>j. foldl (\<lambda>s k. double (s + double (a ! i ! k * b ! k ! j)))
                                            (result p ! i ! j) [0..<n]) [0..<n]) [0..<n],
              flops = flops p + 2 * n * n * n\<rparr>"
proof -
  let ?new = "\<lambda>i. map (\<lambda>j. foldl (\<lambda>s k. double (s + double (a ! i ! k * b ! k ! j)))
                              (result p ! i ! j) [0..<n]) [0..<n]"
  let ?rows = "\<lambda>m. map (\<lambda>i. if i < m then ?new i else result p ! i) [0..<n]"
  let ?P = "\<lambda>m t. t = \<lparr>result = ?rows m, flops = flops p + 2 * n * n * m\<rparr>"
  have len: "length (result p) = n" and rows: "\<And>i. i < n \<Longrightarrow> length (result p ! i) = n"
    using dims by (auto simp: square_def)
  have "\<exists>t. for_loop_throwing 0 n
           (\<lambda>i. for_loop_throwing 0 n (\<lambda>j. for_loop_throwing 0 n (multiply_step a b i j))) p = Inr t
            \<and> ?P n t"
  proof (rule for_loop_throwing_rule[where P = ?P])
    have "?rows 0 = result p"
      using len by (auto intro!: nth_equalityI)
    then show "?P 0 p" by simp
  next
    fix i t
    assume i: "i < n" and t: "?P i t"
    have d1: "i < length (result t)" and d2: "length (result t ! i) = n"
      using t i rows by simp_all
    have row: "result t ! i = result p ! i" using t i by simp
    have "(?rows i)[i := ?new i] = ?rows (Suc i)"
      using i map_upt_update[of i n ?new "\<lambda>i. result p ! i"] by simp
    then show "\<exists>t'. for_loop_throwing 0 n (\<lambda>j. for_loop_throwing 0 n (multiply_step a b i j)) t
                     = Inr t' \<and> ?P (Suc i) t'"
      unfolding middle_loop[OF sq i d1 d2] row using t by simp
  qed simp
  moreover have "?rows n = map ?new [0..<n]" by simp
  ultimately show ?thesis by simp
qed

lemma multiply_square:
  assumes "square n a" "square n b"
  shows "multiplyMatricesWithFLOPS a b n =
         Inr \<lparr>result = map (\<lambda>i. map (\<lambda>j. foldl (\<lambda>s k. double (s + double (a ! i ! k * b ! k ! j)))
                                            0 [0..<n]) [0..<n]) [0..<n],
              flops = 2 * n ^ 3\<rparr>"
proof -
  have "square n (result \<lparr>result = init_result n, flops = 0\<rparr>)"
    by (simp add: init_result_eq square_def)
  from outer_loop[OF assms this] show ?thesis
    unfolding multiplyMatricesWithFLOPS_def
    by (simp add: init_result_eq power3_eq_cube mult.assoc cong: map_cong)
qed

text \<open>
  C1.  For every \<open>n\<close> and any two \<open>n \<times> n\<close> matrices, \<^verbatim>\<open>multiplyMatricesWithFLOPS\<close>
  returns without throwing and its operation count is exactly \<open>2 * n ^ 3\<close>, whatever
  the matrices contain; for \<open>n = 0\<close> it returns the count 0 and the empty matrix (and
  then does not even read its arguments).
\<close>

theorem C1_flops_count:
  "(square n a \<and> square n b \<longrightarrow>
      (\<exists>r. multiplyMatricesWithFLOPS a b n = Inr \<lparr>result = r, flops = 2 * n ^ 3\<rparr>))
   \<and> multiplyMatricesWithFLOPS a' b' 0 = Inr \<lparr>result = [], flops = 0\<rparr>"
proof
  show "square n a \<and> square n b \<longrightarrow>
      (\<exists>r. multiplyMatricesWithFLOPS a b n = Inr \<lparr>result = r, flops = 2 * n ^ 3\<rparr>)"
    by (auto simp: multiply_square)
  have "init_result 0 = []" by (simp add: init_result_eq)
  then show "multiplyMatricesWithFLOPS a' b' 0 = Inr \<lparr>result = [], flops = 0\<rparr>"
    unfolding multiplyMatricesWithFLOPS_def by (subst for_loop_throwing.simps) simp
qed

theorem C1_flops_count_witness:
  "square 2 [[Fin 1, Fin 2], [Fin 3, Fin 4]] \<and> square 2 [[Fin 0, Fin 1], [Fin 1, Fin 0]]
   \<and> (\<exists>r. multiplyMatricesWithFLOPS [[Fin 1, Fin 2], [Fin 3, Fin 4]]
             [[Fin 0, Fin 1], [Fin 1, Fin 0]] 2 = Inr \<lparr>result = r, flops = 16\<rparr>)"
  using C1_flops_count[of 2 "[[Fin 1, Fin 2], [Fin 3, Fin 4]]" "[[Fin 0, Fin 1], [Fin 1, Fin 0]]"]
  by (simp add: square_def)

text \<open>
  The entry of the product is not the sum of C2 for every pair of matrices: the loop
  rounds each product and each partial sum to a double.  For
  \<open>a = [[1e16, 1], [0, 0]]\<close> and \<open>b = [[1, 0], [1, 0]]\<close> the entry \<open>(0, 0)\<close> returned is
  \<open>1e16\<close>, and the sum \<open>a[0][0] * b[0][0] + a[0][1] * b[1][0]\<close> is \<open>1e16 + 1\<close>.
\<close>

theorem C2_rounding_counterexample:
  "let a = [[Fin 10000000000000000, Fin 1], [Fin 0, Fin 0]];
       b = [[Fin 1, Fin 0], [Fin 1, Fin 0]]
   in square 2 a \<and> square 2 b
      \<and> (\<exists>p. multiplyMatricesWithFLOPS a b 2 = Inr p
             \<and> result p ! 0 ! 0 = Fin 10000000000000000)
      \<and> (\<Sum>k = 0..<2. a ! 0 ! k * b ! k ! 0) = Fin 10000000000000001"
proof -
  define a where "a = [[Fin 10000000000000000, Fin 1], [Fin 0, Fin 0]]"
  define b where "b = [[Fin 1, Fin 0], [Fin 1, Fin 0]]"
  have sq: "square 2 a" "square 2 b" by (simp_all add: square_def a_def b_def)
  have big: "round64 10000000000000000 = Fin 10000000000000000"
    using round64_exact[of 10000000000000000 152587890625 16] by simp
  have one: "round64 1 = Fin 1"
    using round64_int[of 1] by simp
  have "foldl (\<lambda>s k. double (s + double (a ! 0 ! k * b ! k ! 0))) 0 [0..<2]
        = Fin 10000000000000000"
    by (simp add: a_def b_def numeral_2_eq_2 zero_jsnum_def big one round64_tie)
  then have "\<exists>p. multiplyMatricesWithFLOPS a b 2 = Inr p
             \<and> result p ! 0 ! 0 = Fin 10000000000000000"
    by (simp add: multiply_square[OF sq])
  moreover have "(\<Sum>k = 0..<2. a ! 0 ! k * b ! k ! 0) = Fin 10000000000000001"
    by (simp add: a_def b_def numeral_2_eq_2 zero_jsnum_def)
  ultimately show ?thesis
    unfolding Let_def a_def[symmetric] b_def[symmetric] using sq by simp
qed

text \<open>
  C2 (amended).  For every pair of \<open>n \<times> n\<close> matrices \<open>a\<close> and \<open>b\<close>, the matrix returned by
  \<^verbatim>\<open>multiplyMatricesWithFLOPS\<close> is \<open>n \<times> n\<close> and its entry \<open>(i, j)\<close>, for all \<open>i, j < n\<close>,
  is the standard product accumulated in double arithmetic: starting from 0, the
  products \<open>a[i][k] * b[k][j]\<close> are added for \<open>k = 0, \<dots>, n - 1\<close> in this order, each
  product and each partial sum being rounded to the nearest double.  The entry is the
  sum over \<open>k < n\<close> of \<open>a[i][k] * b[k][j]\<close> itself when nothing is rounded, in particular
  when row \<open>i\<close> of \<open>a\<close> and column \<open>j\<close> of \<open>b\<close> hold integers of absolute value at most
  \<open>M\<close> with \<open>n * M\<^sup>2 < 2 ^ 53\<close>.
\<close>

theorem C2_rounded_product:
  assumes "square n a" and "square n b" and "i < n" and "j < n"
  shows "\<exists>p. multiplyMatricesWithFLOPS a b n = Inr p \<and> square n (result p)
             \<and> result p ! i ! j
                 = foldl (\<lambda>s k. double (s + double (a ! i ! k * b ! k ! j))) 0 [0..<n]
             \<and> ((\<forall>k<n. small_int M (a ! i ! k) \<and> small_int M (b ! k ! j))
                  \<and> int n * M * M < 2 ^ 53
                \<longrightarrow> result p ! i ! j = (\<Sum>k = 0..<n. a ! i ! k * b ! k ! j))"
proof -
  let ?p = "\<lparr>result = map (\<lambda>i. map (\<lambda>j. foldl (\<lambda>s k. double (s + double (a ! i ! k * b ! k ! j)))
                                            0 [0..<n]) [0..<n]) [0..<n],
             flops = 2 * n ^ 3\<rparr>"
  have r: "multiplyMatricesWithFLOPS a b n = Inr ?p"
    using assms(1,2) by (rule multiply_square)
  have s: "square n (result ?p)" by (simp add: square_def)
  have e: "result ?p ! i ! j
           = foldl (\<lambda>s k. double (s + double (a ! i ! k * b ! k ! j))) 0 [0..<n]"
    using assms(3,4) by simp
  have x: "(\<forall>k<n. small_int M (a ! i ! k) \<and> small_int M (b ! k ! j)) \<and> int n * M * M < 2 ^ 53
           \<longrightarrow> result ?p ! i ! j = (\<Sum>k = 0..<n. a ! i ! k * b ! k ! j)"
    unfolding e
    using rounded_sum_exact[of n M "\<lambda>k. a ! i ! k" "\<lambda>k. b ! k ! j"] by blast
  from r s e x show ?thesis by blast
qed

theorem C2_rounded_product_witness:
  "square 2 [[Fin 1, Fin 2], [Fin 3, Fin 4]] \<and> square 2 [[Fin 5, Fin 6], [Fin 7, Fin 8]]
   \<and> (0::nat) < 2 \<and> (1::nat) < 2
   \<and> small_int 8 ([[Fin 1, Fin 2], [Fin 3, Fin 4]] ! 0 ! 0)
   \<and> small_int 8 ([[Fin 5, Fin 6], [Fin 7, Fin 8]] ! 0 ! 1)
   \<and> small_int 8 ([[Fin 1, Fin 2], [Fin 3, Fin 4]] ! 0 ! 1)
   \<and> small_int 8 ([[Fin 5, Fin 6], [Fin 7, Fin 8]] ! 1 ! 1)
   \<and> int 2 * 8 * 8 < 2 ^ 53
   \<and> (\<exists>p. multiplyMatricesWithFLOPS [[Fin 1, Fin 2], [Fin 3, Fin 4]]
             [[Fin 5, Fin 6], [Fin 7, Fin 8]] 2 = Inr p \<and> square 2 (result p)
           \<and> result p ! 0 ! 1 = Fin 22)"
proof -
  have sq: "square 2 [[Fin 1, Fin 2], [Fin 3, Fin 4]]" "square 2 [[Fin 5, Fin 6], [Fin 7, Fin 8]]"
    by (simp_all add: square_def)
  have sm: "\<forall>k<2. small_int 8 ([[Fin 1, Fin 2], [Fin 3, Fin 4]] ! 0 ! k)
            \<and> small_int 8 ([[Fin 5, Fin 6], [Fin 7, Fin 8]] ! k ! 1)"
    by (simp add: less_Suc_eq numeral_2_eq_2)
  have s: "(\<Sum>k = 0..<2. [[Fin 1, Fin 2], [Fin 3, Fin 4]] ! 0 ! k
                         * [[Fin 5, Fin 6], [Fin 7, Fin 8]] ! k ! 1) = Fin 22"
    by (simp add: numeral_2_eq_2 zero_jsnum_def)
  from C2_rounded_product[OF sq, of 0 1 8] sm
  have "\<exists>p. multiplyMatricesWithFLOPS [[Fin 1, Fin 2], [Fin 3, Fin 4]]
             [[Fin 5, Fin 6], [Fin 7, Fin 8]] 2 = Inr p \<and> square 2 (result p)
           \<and> result p ! 0 ! 1 = Fin 22"
    unfolding s by auto
  with sq show ?thesis by simp
qed

section \<open>Trials: derived metrics\<close>

lemma Fin_minus [simp]: "Fin x - Fin y = Fin (x - y)"
  by (simp add: minus_jsnum_def)

lemma trial_metrics_eq:
  "trial_metrics fl t0 t1 =
     (Fin (t1 - t0),
      if t1 = t0 then of_sign (real fl) else Fin (real fl * 1000 / (t1 - t0)),
      if t1 = t0 then NaN else Fin (real fl / 10 ^ 12))"
proof (cases "t1 = t0")
  case True
  then show ?thesis by (simp add: trial_metrics_def num_def Let_def)
next
  case False
  define d where "d = t1 - t0"
  have d: "d \<noteq> 0" using False by (simp add: d_def)
  have 1: "real fl / (d / 1000) = real fl * 1000 / d" by simp
  have 2: "d / 1000 * (real fl * 1000 / d / 10 ^ 12) = real fl / 10 ^ 12"
    using d by simp
  have "trial_metrics fl t0 t1 = (Fin d, Fin (real fl / (d / 1000)),
           Fin (d / 1000 * (real fl / (d / 1000) / 10 ^ 12)))"
    using d by (simp add: trial_metrics_def num_def Let_def d_def)
  then show ?thesis using False unfolding 1 2 by (simp add: d_def)
qed

lemma measure_trial_ok:
  assumes "failure tr = None"
  shows "measure_trial n tr acc =
     (case trial_metrics (2 * n ^ 3) (startTime tr) (endTime tr) of
        (elapsed, currentFLOPS, tfs) \<Rightarrow>
          Inr \<lparr>times_ms = times_ms acc @ [elapsed],
               flopsResults = flopsResults acc @ [currentFLOPS],
               teraflopsSecondsResults = teraflopsSecondsResults acc @ [tfs],
               totalFLOPS = 2 * n ^ 3\<rparr>)"
  using assms
  by (simp add: measure_trial_def Let_def
      multiply_square[OF square_generateRandomMatrix square_generateRandomMatrix])

lemma trials_loop:
  assumes ok: "\<And>i. i < T \<Longrightarrow> failure (trials i) = None"
  shows "for_loop_throwing 0 T (\<lambda>i. measure_trial n (trials i))
           \<lparr>times_ms = [], flopsResults = [], teraflopsSecondsResults = [], totalFLOPS = 0\<rparr> =
         Inr \<lparr>times_ms = map (\<lambda>i. fst (trial_metrics (2 * n ^ 3) (startTime (trials i))
                                        (endTime (trials i)))) [0..<T],
              flopsResults = map (\<lambda>i. fst (snd (trial_metrics (2 * n ^ 3) (startTime (trials i))
                                        (endTime (trials i))))) [0..<T],
              teraflopsSecondsResults =
                 map (\<lambda>i. snd (snd (trial_metrics (2 * n ^ 3) (startTime (trials i))
                                        (endTime (trials i))))) [0..<T],
              totalFLOPS = (if T = 0 then 0 else 2 * n ^ 3)\<rparr>"
proof -
  let ?m = "\<lambda>i. trial_metrics (2 * n ^ 3) (startTime (trials i)) (endTime (trials i))"
  let ?P = "\<lambda>k acc. acc = \<lparr>times_ms = map (\<lambda>i. fst (?m i)) [0..<k],
                            flopsResults = map (\<lambda>i. fst (snd (?m i))) [0..<k],
                            teraflopsSecondsResults = map (\<lambda>i. snd (snd (?m i))) [0..<k],
                            totalFLOPS = (if k = 0 then 0 else 2 * n ^ 3)\<rparr>"
  have "\<exists>acc. for_loop_throwing 0 T (\<lambda>i. measure_trial n (trials i))
           \<lparr>times_ms = [], flopsResults = [], teraflopsSecondsResults = [], totalFLOPS = 0\<rparr>
           = Inr acc \<and> ?P T acc"
  proof (rule for_loop_throwing_rule[where P = ?P])
    fix k acc
    assume k: "k < T" and acc: "?P k acc"
    show "\<exists>acc'. measure_trial n (trials k) acc = Inr acc' \<and> ?P (Suc k) acc'"
      unfolding measure_trial_ok[OF ok[OF k]] acc by (simp add: split_beta)
  qed simp_all
  then show ?thesis by auto
qed

lemma foldl_plus: "foldl (\<lambda>sum x. sum + x) a xs = a + sum_list xs"
  for a :: "'a::comm_monoid_add"
  by (induction xs arbitrary: a) (simp_all add: add.assoc)

lemma sum_list_Fin: "sum_list (map Fin xs) = Fin (sum_list xs)"
  by (induction xs) (simp_all add: zero_jsnum_def)

lemma average_Fin: "xs \<noteq> [] \<Longrightarrow> average (map Fin xs) = Fin (sum_list xs / real (length xs))"
  by (simp add: average_def foldl_plus sum_list_Fin num_def zero_jsnum_def)

lemma measureFLOPS_nonzero:
  assumes T: "0 < T"
    and ok: "\<And>i. i < T \<Longrightarrow> failure (trials i) = None"
    and nz: "\<And>i. i < T \<Longrightarrow> endTime (trials i) \<noteq> startTime (trials i)"
  shows "\<exists>m. measureFLOPS trials n T = Inr m \<and> m_flops m = 2 * n ^ 3
           \<and> avgFLOPS m = Fin (sum_list (map (\<lambda>i. real (2 * n ^ 3) * 1000
                                  / (endTime (trials i) - startTime (trials i))) [0..<T]) / real T)
           \<and> gflops m = avgFLOPS m / Fin (10 ^ 9)
           \<and> teraflops m = avgFLOPS m / Fin (10 ^ 12)
           \<and> teraflopsSeconds m = Fin (real (2 * n ^ 3) / 10 ^ 12)"
proof -
  let ?g = "\<lambda>i. real (2 * n ^ 3) * 1000 / (endTime (trials i) - startTime (trials i))"
  define c where "c = real (2 * n ^ 3) / 10 ^ 12"
  have f: "map (\<lambda>i. fst (snd (trial_metrics (2 * n ^ 3) (startTime (trials i))
              (endTime (trials i))))) [0..<T] = map Fin (map ?g [0..<T])"
    using nz by (simp add: trial_metrics_eq)
  have "map (\<lambda>i. snd (snd (trial_metrics (2 * n ^ 3) (startTime (trials i))
              (endTime (trials i))))) [0..<T] = map (\<lambda>i. Fin c) [0..<T]"
    using nz by (simp add: trial_metrics_eq c_def)
  then have t: "map (\<lambda>i. snd (snd (trial_metrics (2 * n ^ 3) (startTime (trials i))
              (endTime (trials i))))) [0..<T] = map Fin (replicate T c)"
    by (simp add: map_replicate_const)
  have a1: "average (map Fin (map ?g [0..<T])) = Fin (sum_list (map ?g [0..<T]) / real T)"
    using T average_Fin[of "map ?g [0..<T]"] by simp
  have a2: "average (map Fin (replicate T c)) = Fin c"
    using T average_Fin[of "replicate T c"] by (simp add: sum_list_replicate)
  note loop = trials_loop[of T trials n, OF ok]
  have "\<exists>av sd. measureFLOPS trials n T =
          Inr \<lparr>avgTime = av, stdDev = sd, m_flops = (if T = 0 then 0 else 2 * n ^ 3),
               avgFLOPS = average (map Fin (map ?g [0..<T])),
               gflops = average (map Fin (map ?g [0..<T])) / Fin (10 ^ 9),
               teraflops = average (map Fin (map ?g [0..<T])) / Fin (10 ^ 12),
               teraflopsSeconds = average (map Fin (replicate T c))\<rparr>"
    by (simp only: measureFLOPS_def loop Let_def sum.case samples.simps f t) blast
  then show ?thesis
    unfolding a1 a2 using T by (auto simp: c_def)
qed

text \<open>
  C6.  For every input with fewer than 3 points, \<^verbatim>\<open>fitCubicCurve\<close> returns
  \<open>a = 0\<close>, \<open>b = 0\<close>, \<open>c = 0\<close>, \<open>rSquared = 0\<close>.
\<close>

theorem C6_too_few_points:
  "length dps < 3 \<Longrightarrow>
   fitCubicCurve dps = \<lparr>fit_a = Fin 0, fit_b = Fin 0, fit_c = Fin 0, fit_rSquared = Fin 0\<rparr>"
  by (simp add: fitCubicCurve_def zero_jsnum_def)

theorem C6_too_few_points_witness:
  "length [\<lparr>dp_n = 100, dp_time = Fin 3, dp_operations = 2000000, dp_flops = Fin 1,
            dp_gflops = Fin 1, dp_teraflops = Fin 1, dp_teraflopsSeconds = Fin 1,
            dp_theoretical = Fin 2, dp_standardDeviation = Some (Fin 0)\<rparr>] < 3
   \<and> fitCubicCurve [\<lparr>dp_n = 100, dp_time = Fin 3, dp_operations = 2000000, dp_flops = Fin 1,
            dp_gflops = Fin 1, dp_teraflops = Fin 1, dp_teraflopsSeconds = Fin 1,
            dp_theoretical = Fin 2, dp_standardDeviation = Some (Fin 0)\<rparr>]
       = \<lparr>fit_a = Fin 0, fit_b = Fin 0, fit_c = Fin 0, fit_rSquared = Fin 0\<rparr>"
  using C6_too_few_points[of "[\<lparr>dp_n = 100, dp_time = Fin 3, dp_operations = 2000000,
            dp_flops = Fin 1, dp_gflops = Fin 1, dp_teraflops = Fin 1, dp_teraflopsSeconds = Fin 1,
            dp_theoretical = Fin 2, dp_standardDeviation = Some (Fin 0)\<rparr>]"]
  by simp

text \<open>
  C4.  The identity does not hold for a trial whose two clock readings are equal, which
  is what a clock of coarse resolution returns for a small size: \<^verbatim>\<open>timeInSeconds\<close> is 0,
  \<^verbatim>\<open>flops / timeInSeconds\<close> is \<open>Infinity\<close> (the division has no zero guard), and
  \<^verbatim>\<open>timeInSeconds * teraflopsPerSecond\<close> is \<open>0 * Infinity\<close>.  At \<open>n = 50\<close> such a trial
  pushes NaN where \<open>2 * n ^ 3 / 1e12\<close> is \<open>2.5e-7\<close>, and three such trials make
  \<^verbatim>\<open>measureFLOPS\<close> return an infinite rate and the \<^verbatim>\<open>teraflopsSeconds\<close> NaN.
\<close>

theorem C4_zero_elapsed_time:
  "let tr = \<lparr>randomA = (\<lambda>i j. 1 / 2), randomB = (\<lambda>i j. 1 / 4), startTime = 5, endTime = 5,
             failure = None\<rparr>
   in measure_trial 50 tr
        \<lparr>times_ms = [], flopsResults = [], teraflopsSecondsResults = [], totalFLOPS = 0\<rparr>
      = Inr \<lparr>times_ms = [Fin 0], flopsResults = [PosInf], teraflopsSecondsResults = [NaN],
             totalFLOPS = 250000\<rparr>
      \<and> measureFLOPS (\<lambda>i. tr) 50 3
        = Inr \<lparr>avgTime = Fin 0, stdDev = Fin 0, m_flops = 250000, avgFLOPS = PosInf,
               gflops = PosInf, teraflops = PosInf, teraflopsSeconds = NaN\<rparr>"
proof -
  define tr where "tr = \<lparr>randomA = (\<lambda>i j. 1 / 2), randomB = (\<lambda>i j. 1 / 4), startTime = 5,
      endTime = 5, failure = None :: js_error option\<rparr>"
  have ok: "failure tr = None" by (simp add: tr_def)
  have tm: "trial_metrics (2 * 50 ^ 3) (startTime tr) (endTime tr) = (Fin 0, PosInf, NaN)"
    by (simp add: trial_metrics_eq tr_def)
  have 1: "measure_trial 50 tr
        \<lparr>times_ms = [], flopsResults = [], teraflopsSecondsResults = [], totalFLOPS = 0\<rparr>
      = Inr \<lparr>times_ms = [Fin 0], flopsResults = [PosInf], teraflopsSecondsResults = [NaN],
             totalFLOPS = 250000\<rparr>"
    unfolding measure_trial_ok[OF ok] tm by simp
  have three: "[0..<3] = [0, 1, 2]" by (simp add: upt_conv_Cons)
  have loop: "for_loop_throwing 0 3 (\<lambda>i. measure_trial 50 tr)
        \<lparr>times_ms = [], flopsResults = [], teraflopsSecondsResults = [], totalFLOPS = 0\<rparr>
      = Inr \<lparr>times_ms = [Fin 0, Fin 0, Fin 0], flopsResults = [PosInf, PosInf, PosInf],
             teraflopsSecondsResults = [NaN, NaN, NaN], totalFLOPS = 250000\<rparr>"
    unfolding trials_loop[of 3 "\<lambda>i. tr" 50, OF ok] tm three by simp
  have 2: "measureFLOPS (\<lambda>i. tr) 50 3
        = Inr \<lparr>avgTime = Fin 0, stdDev = Fin 0, m_flops = 250000, avgFLOPS = PosInf,
               gflops = PosInf, teraflops = PosInf, teraflopsSeconds = NaN\<rparr>"
    unfolding measureFLOPS_def loop
    by (simp add: average_def num_def zero_jsnum_def Let_def)
  from 1 2 show ?thesis
    unfolding Let_def tr_def[symmetric] by simp
qed

lemma sum_list_nonneg_map:
  "(\<And>x. x \<in> set xs \<Longrightarrow> 0 \<le> f x) \<Longrightarrow> 0 \<le> sum_list (map f xs)"
  for f :: "'a \<Rightarrow> real"
  by (induction xs) simp_all

text \<open>
  C10.  \<^verbatim>\<open>measureFLOPS\<close> divides by the elapsed seconds without a zero guard.  When
  it runs at least one trial and every trial has a strictly positive elapsed time, the
  fields \<^verbatim>\<open>avgFLOPS\<close>, \<^verbatim>\<open>gflops\<close>, \<^verbatim>\<open>teraflops\<close> and \<^verbatim>\<open>teraflopsSeconds\<close> of the returned
  record are finite (neither NaN nor infinite) and non-negative.  For a clock that does
  not run backwards, positivity is exactly the condition: the \<^verbatim>\<open>currentFLOPS\<close> of a
  trial is finite if and only if its elapsed time is strictly positive.
\<close>

theorem C10_rates_finite:
  "(0 < T \<and> (\<forall>i<T. failure (trials i) = None \<and> startTime (trials i) < endTime (trials i)) \<longrightarrow>
      (\<exists>m. measureFLOPS trials n T = Inr m
         \<and> is_finite (avgFLOPS m) \<and> js_nonneg (avgFLOPS m)
         \<and> is_finite (gflops m) \<and> js_nonneg (gflops m)
         \<and> is_finite (teraflops m) \<and> js_nonneg (teraflops m)
         \<and> is_finite (teraflopsSeconds m) \<and> js_nonneg (teraflopsSeconds m)))
   \<and> (t0 \<le> t1 \<longrightarrow> is_finite (fst (snd (trial_metrics fl t0 t1))) = (t0 < t1))"
proof (intro conjI impI)
  assume h: "0 < T \<and> (\<forall>i<T. failure (trials i) = None \<and> startTime (trials i) < endTime (trials i))"
  let ?g = "\<lambda>i. real (2 * n ^ 3) * 1000 / (endTime (trials i) - startTime (trials i))"
  have pos: "0 \<le> sum_list (map ?g [0..<T]) / real T"
    using h by (intro divide_nonneg_nonneg sum_list_nonneg_map) auto
  from measureFLOPS_nonzero[of T trials n] h
  obtain m where m: "measureFLOPS trials n T = Inr m"
    "avgFLOPS m = Fin (sum_list (map ?g [0..<T]) / real T)"
    "gflops m = avgFLOPS m / Fin (10 ^ 9)" "teraflops m = avgFLOPS m / Fin (10 ^ 12)"
    "teraflopsSeconds m = Fin (real (2 * n ^ 3) / 10 ^ 12)"
    by force
  show "\<exists>m. measureFLOPS trials n T = Inr m
         \<and> is_finite (avgFLOPS m) \<and> js_nonneg (avgFLOPS m)
         \<and> is_finite (gflops m) \<and> js_nonneg (gflops m)
         \<and> is_finite (teraflops m) \<and> js_nonneg (teraflops m)
         \<and> is_finite (teraflopsSeconds m) \<and> js_nonneg (teraflopsSeconds m)"
    using pos by (simp add: m is_finite_def js_nonneg_def)
next
  assume "t0 \<le> t1"
  then show "is_finite (fst (snd (trial_metrics fl t0 t1))) = (t0 < t1)"
    by (auto simp: trial_metrics_eq is_finite_def)
qed

theorem C10_rates_finite_witness:
  "(\<exists>m. measureFLOPS (\<lambda>i. \<lparr>randomA = (\<lambda>i j. 1 / 2), randomB = (\<lambda>i j. 1 / 4),
                               startTime = 5, endTime = 9 + real i, failure = None\<rparr>) 2 3 = Inr m
         \<and> is_finite (avgFLOPS m) \<and> js_nonneg (avgFLOPS m)
         \<and> is_finite (gflops m) \<and> js_nonneg (gflops m)
         \<and> is_finite (teraflops m) \<and> js_nonneg (teraflops m)
         \<and> is_finite (teraflopsSeconds m) \<and> js_nonneg (teraflopsSeconds m))
   \<and> is_finite (fst (snd (trial_metrics 16 5 9)))
   \<and> \<not> is_finite (fst (snd (trial_metrics 16 5 5)))"
  using C10_rates_finite[of 3 "\<lambda>i. \<lparr>randomA = (\<lambda>i j. 1 / 2), randomB = (\<lambda>i j. 1 / 4),
                               startTime = 5, endTime = 9 + real i, failure = None\<rparr>" 2 5 9 16]
    C10_rates_finite[of 3 "\<lambda>i. \<lparr>randomA = (\<lambda>i j. 1 / 2), randomB = (\<lambda>i j. 1 / 4),
                               startTime = 5, endTime = 9 + real i, failure = None\<rparr>" 2 5 5 16]
  by simp

section \<open>The sweep, run to completion\<close>

lemma for_loop_throwing_fails:
  assumes "i \<le> j" and "j < n" and "\<And>t. \<exists>e. body j t = Inl e"
  shows "\<exists>e. for_loop_throwing i n body s = Inl e"
  using assms
proof (induction i n body s rule: for_loop_throwing.induct)
  case (1 i n body s)
  have i: "i < n" using 1(2,3) by simp
  show ?case
  proof (cases "body i s")
    case (Inl e)
    with i show ?thesis by (subst for_loop_throwing.simps) simp
  next
    case (Inr s')
    with 1(4)[of s] have "i \<noteq> j" by auto
    with 1(2) have "Suc i \<le> j" by simp
    from 1(1)[OF i Inr this 1(3,4)] obtain e where "for_loop_throwing (Suc i) n body s' = Inl e"
      by blast
    with i Inr show ?thesis by (subst for_loop_throwing.simps) simp
  qed
qed

lemma measureFLOPS_returns:
  assumes "\<And>i. i < T \<Longrightarrow> failure (trials i) = None"
  shows "\<exists>m. measureFLOPS trials n T = Inr m"
  by (simp add: measureFLOPS_def trials_loop[OF assms] Let_def)

lemma measureFLOPS_throws:
  assumes "i < T" and "failure (trials i) \<noteq> None"
  shows "\<exists>e. measureFLOPS trials n T = Inl e"
proof -
  have "\<And>acc. \<exists>e. measure_trial n (trials i) acc = Inl e"
    using assms(2) by (auto simp: measure_trial_def)
  from for_loop_throwing_fails[of 0 i T "\<lambda>i. measure_trial n (trials i)", OF _ assms(1) this]
  obtain e where "for_loop_throwing 0 T (\<lambda>i. measure_trial n (trials i))
      \<lparr>times_ms = [], flopsResults = [], teraflopsSecondsResults = [], totalFLOPS = 0\<rparr> = Inl e"
    by blast
  then show ?thesis by (simp add: measureFLOPS_def)
qed

lemma continue_sweep_done:
  "\<not> sw_n sw \<le> sw_endN sw \<Longrightarrow>
   continue_sweep env sw s = (None, finally_block (publish sw s))"
  by (simp add: continue_sweep_def)

lemma continue_sweep_ok:
  assumes "sw_n sw \<le> sw_endN sw"
    and "\<And>i. i < sw_measurements sw \<Longrightarrow> failure (env (sw_n sw) i) = None"
  shows "\<exists>point tfs. dp_n point = sw_n sw \<and>
           continue_sweep env sw s =
             (Some (sw\<lparr>sw_dataPoints := sw_dataPoints sw @ [point],
                       sw_totalTeraflopsSeconds := tfs\<rparr>),
              s\<lparr>currentTest := test_label (sw_n sw) (sw_measurements sw),
                progress := js_min (((num (sw_n sw) - num (sw_startN sw))
                                     / (num (sw_endN sw) - num (sw_startN sw))) * Fin 100)
                                   (Fin 100)\<rparr>)"
proof -
  from measureFLOPS_returns[of "sw_measurements sw" "env (sw_n sw)" "sw_n sw"] assms(2)
  obtain m where m: "measureFLOPS (env (sw_n sw)) (sw_n sw) (sw_measurements sw) = Inr m"
    by blast
  define point where "point =
    \<lparr>dp_n = sw_n sw, dp_time = avgTime m, dp_operations = m_flops m,
     dp_flops = avgFLOPS m, dp_gflops = gflops m, dp_teraflops = teraflops m,
     dp_teraflopsSeconds = teraflopsSeconds m,
     dp_theoretical = (Fin 2 * js_pow (num (sw_n sw)) 3 - js_pow (num (sw_n sw)) 2)
                      * Fin 0.000001,
     dp_standardDeviation = Some (stdDev m)\<rparr>"
  have "dp_n point = sw_n sw" by (simp add: point_def)
  moreover have "continue_sweep env sw s =
             (Some (sw\<lparr>sw_dataPoints := sw_dataPoints sw @ [point],
                       sw_totalTeraflopsSeconds :=
                         sw_totalTeraflopsSeconds sw + teraflopsSeconds m\<rparr>),
              s\<lparr>currentTest := test_label (sw_n sw) (sw_measurements sw),
                progress := js_min (((num (sw_n sw) - num (sw_startN sw))
                                     / (num (sw_endN sw) - num (sw_startN sw))) * Fin 100)
                                   (Fin 100)\<rparr>)"
    using assms(1) m by (simp add: continue_sweep_def loop_body_def Let_def point_def)
  ultimately show ?thesis by blast
qed

lemma continue_sweep_fail:
  assumes "sw_n sw \<le> sw_endN sw"
    and "i < sw_measurements sw" and "failure (env (sw_n sw) i) \<noteq> None"
  shows "\<exists>e. continue_sweep env sw s =
           (None, finally_block (catch_block e
                    (s\<lparr>currentTest := test_label (sw_n sw) (sw_measurements sw)\<rparr>)))"
proof -
  from measureFLOPS_throws[of i "sw_measurements sw" "env (sw_n sw)" "sw_n sw", OF assms(2,3)]
  obtain e where "measureFLOPS (env (sw_n sw)) (sw_n sw) (sw_measurements sw) = Inl e"
    by blast
  with assms(1) have "continue_sweep env sw s =
           (None, finally_block (catch_block e
                    (s\<lparr>currentTest := test_label (sw_n sw) (sw_measurements sw)\<rparr>)))"
    by (simp add: continue_sweep_def loop_body_def Let_def)
  then show ?thesis by blast
qed

lemma run_to_end_None: "run_to_end env (None, s) = Some s"
  by (subst run_to_end.simps) simp

lemma run_to_end_Some:
  "run_to_end env (Some sw, s) = run_to_end env (resume_sweep env sw s)"
  by (subst run_to_end.simps) simp

lemma progression_unfold:
  assumes "0 < d" and "n \<le> e"
  shows "map (\<lambda>k. n + k * d) [0..<(e - n) div d + 1]
         = n # map (\<lambda>k. n + d + k * d) [0..<(if n + d \<le> e then (e - (n + d)) div d + 1 else 0)]"
proof (cases "n + d \<le> e")
  case True
  then have "e - n = (e - (n + d)) + d" by simp
  then have "(e - n) div d = (e - (n + d)) div d + 1"
    using assms(1) by (metis div_add_self2 less_numeral_extra(3))
  with True show ?thesis by (simp add: map_upt_Suc add.assoc del: upt_Suc)
next
  case False
  then have "e - n < d" using assms(2) by simp
  then have "(e - n) div d = 0" by simp
  with False show ?thesis by simp
qed

lemma sweep_terminates:
  assumes "0 < sw_step sw"
  shows "\<exists>s'. run_to_end env (continue_sweep env sw s) = Some s'"
  using assms
proof (induction "sw_endN sw + 1 - sw_n sw" arbitrary: sw s rule: less_induct)
  case less
  show ?case
  proof (cases "sw_n sw \<le> sw_endN sw")
    case False
    then show ?thesis by (simp add: continue_sweep_done run_to_end_None)
  next
    case True
    show ?thesis
    proof (cases "\<forall>i<sw_measurements sw. failure (env (sw_n sw) i) = None")
      case ok: True
      with continue_sweep_ok[where sw = sw and env = env and s = s, OF True] obtain sw' s2 where
        c: "continue_sweep env sw s = (Some sw', s2)"
        and sw': "sw_n sw' = sw_n sw" "sw_endN sw' = sw_endN sw" "sw_step sw' = sw_step sw"
        by fastforce
      let ?next = "sw'\<lparr>sw_n := sw_n sw' + sw_step sw'\<rparr>"
      have "sw_endN ?next + 1 - sw_n ?next < sw_endN sw + 1 - sw_n sw"
        using True less.prems sw' by simp
      moreover have "0 < sw_step ?next" using less.prems sw' by simp
      ultimately have "\<exists>s'. run_to_end env (continue_sweep env ?next s2) = Some s'"
        by (rule less.hyps)
      then show ?thesis by (simp add: c run_to_end_Some resume_sweep_def)
    next
      case False
      then obtain i where "i < sw_measurements sw" "failure (env (sw_n sw) i) \<noteq> None" by blast
      from continue_sweep_fail[where sw = sw and env = env and s = s, OF True this] show ?thesis
        by (auto simp: run_to_end_None)
    qed
  qed
qed

lemma sweep_completes:
  assumes "0 < sw_step sw"
    and "\<forall>k i. sw_n sw + k * sw_step sw \<le> sw_endN sw \<and> i < sw_measurements sw
           \<longrightarrow> failure (env (sw_n sw + k * sw_step sw) i) = None"
  shows "\<exists>s' r. run_to_end env (continue_sweep env sw s) = Some s' \<and> results s' = Some r
           \<and> map dp_n (dataPoints r) =
               map dp_n (sw_dataPoints sw)
               @ map (\<lambda>k. sw_n sw + k * sw_step sw)
                   [0..<(if sw_n sw \<le> sw_endN sw
                         then (sw_endN sw - sw_n sw) div sw_step sw + 1 else 0)]"
  using assms
proof (induction "sw_endN sw + 1 - sw_n sw" arbitrary: sw s rule: less_induct)
  case less
  show ?case
  proof (cases "sw_n sw \<le> sw_endN sw")
    case False
    then show ?thesis
      by (simp add: continue_sweep_done run_to_end_None finally_block_def publish_def Let_def)
  next
    case True
    have ok: "\<And>i. i < sw_measurements sw \<Longrightarrow> failure (env (sw_n sw) i) = None"
      using less.prems(2)[rule_format, of 0] True by simp
    from continue_sweep_ok[where sw = sw and env = env and s = s, OF True ok] obtain point tfs s2 where
      pt: "dp_n point = sw_n sw"
      and c: "continue_sweep env sw s =
               (Some (sw\<lparr>sw_dataPoints := sw_dataPoints sw @ [point],
                         sw_totalTeraflopsSeconds := tfs\<rparr>), s2)"
      by blast
    let ?next = "sw\<lparr>sw_dataPoints := sw_dataPoints sw @ [point],
                    sw_totalTeraflopsSeconds := tfs, sw_n := sw_n sw + sw_step sw\<rparr>"
    have m: "sw_endN ?next + 1 - sw_n ?next < sw_endN sw + 1 - sw_n sw"
      using True less.prems(1) by simp
    have st: "0 < sw_step ?next" using less.prems(1) by simp
    have nf: "\<forall>k i. sw_n ?next + k * sw_step ?next \<le> sw_endN ?next \<and> i < sw_measurements ?next
           \<longrightarrow> failure (env (sw_n ?next + k * sw_step ?next) i) = None"
    proof (intro allI impI)
      fix k i
      assume "sw_n ?next + k * sw_step ?next \<le> sw_endN ?next \<and> i < sw_measurements ?next"
      then have "sw_n sw + Suc k * sw_step sw \<le> sw_endN sw \<and> i < sw_measurements sw"
        by (simp add: add.assoc)
      with less.prems(2) have "failure (env (sw_n sw + Suc k * sw_step sw) i) = None" by blast
      then show "failure (env (sw_n ?next + k * sw_step ?next) i) = None"
        by (simp add: add.assoc)
    qed
    from less.hyps[OF m st nf, of s2] obtain s' r where
      r: "run_to_end env (continue_sweep env ?next s2) = Some s'" "results s' = Some r"
         "map dp_n (dataPoints r) =
            map dp_n (sw_dataPoints ?next)
            @ map (\<lambda>k. sw_n ?next + k * sw_step ?next)
                [0..<(if sw_n ?next \<le> sw_endN ?next
                      then (sw_endN ?next - sw_n ?next) div sw_step ?next + 1 else 0)]"
      by blast
    have run: "run_to_end env (continue_sweep env sw s) = Some s'"
      using r(1) by (simp add: c run_to_end_Some resume_sweep_def)
    have "map dp_n (dataPoints r) =
            map dp_n (sw_dataPoints sw)
            @ map (\<lambda>k. sw_n sw + k * sw_step sw) [0..<(sw_endN sw - sw_n sw) div sw_step sw + 1]"
      unfolding r(3) progression_unfold[OF less.prems(1) True] using pt by simp
    with run r(2) True show ?thesis by simp
  qed
qed

lemma sweep_aborts:
  assumes "sw_n sw + k * sw_step sw \<le> sw_endN sw" and "i < sw_measurements sw"
    and "failure (env (sw_n sw + k * sw_step sw) i) \<noteq> None"
  shows "\<exists>s' e. run_to_end env (continue_sweep env sw s) = Some s' \<and> results s' = results s
           \<and> console s' = console s @ [e]"
  using assms
proof (induction k arbitrary: sw s)
  case 0
  then have le: "sw_n sw \<le> sw_endN sw" and f: "failure (env (sw_n sw) i) \<noteq> None" by simp_all
  from continue_sweep_fail[where sw = sw and env = env and s = s, OF le 0(2) f] show ?case
    by (auto simp: run_to_end_None finally_block_def catch_block_def)
next
  case (Suc k)
  then have le: "sw_n sw \<le> sw_endN sw" by simp
  show ?case
  proof (cases "\<forall>j<sw_measurements sw. failure (env (sw_n sw) j) = None")
    case False
    then obtain j where "j < sw_measurements sw" "failure (env (sw_n sw) j) \<noteq> None" by blast
    from continue_sweep_fail[where sw = sw and env = env and s = s, OF le this] show ?thesis
      by (auto simp: run_to_end_None finally_block_def catch_block_def)
  next
    case True
    with continue_sweep_ok[where sw = sw and env = env and s = s, OF le] obtain point tfs where
      c: "continue_sweep env sw s =
               (Some (sw\<lparr>sw_dataPoints := sw_dataPoints sw @ [point],
                         sw_totalTeraflopsSeconds := tfs\<rparr>),
                s\<lparr>currentTest := test_label (sw_n sw) (sw_measurements sw),
                  progress := js_min (((num (sw_n sw) - num (sw_startN sw))
                                     / (num (sw_endN sw) - num (sw_startN sw))) * Fin 100)
                                   (Fin 100)\<rparr>)"
      by blast
    let ?next = "sw\<lparr>sw_dataPoints := sw_dataPoints sw @ [point],
                    sw_totalTeraflopsSeconds := tfs, sw_n := sw_n sw + sw_step sw\<rparr>"
    let ?s2 = "s\<lparr>currentTest := test_label (sw_n sw) (sw_measurements sw),
                  progress := js_min (((num (sw_n sw) - num (sw_startN sw))
                                     / (num (sw_endN sw) - num (sw_startN sw))) * Fin 100)
                                   (Fin 100)\<rparr>"
    have "\<exists>s' e. run_to_end env (continue_sweep env ?next ?s2) = Some s'
            \<and> results s' = results ?s2 \<and> console s' = console ?s2 @ [e]"
    proof (rule Suc.IH)
      show "sw_n ?next + k * sw_step ?next \<le> sw_endN ?next"
        using Suc.prems(1) by (simp add: add.assoc)
      show "i < sw_measurements ?next" using Suc.prems(2) by simp
      show "failure (env (sw_n ?next + k * sw_step ?next) i) \<noteq> None"
        using Suc.prems(3) by (simp add: add.assoc)
    qed
    then show ?thesis by (simp add: c run_to_end_Some resume_sweep_def)
  qed
qed

lemma continue_sweep_cases:
  assumes "continue_sweep env sw s = (r, s')"
  shows "(r = None \<and> \<not> isRunning s' \<and> progress s' = 0 \<and> currentTest s' = [])
       \<or> (\<exists>point tfs. r = Some (sw\<lparr>sw_dataPoints := sw_dataPoints sw @ [point],
                                      sw_totalTeraflopsSeconds := tfs\<rparr>)
            \<and> sw_n sw \<le> sw_endN sw
            \<and> s' = s\<lparr>currentTest := test_label (sw_n sw) (sw_measurements sw),
                      progress := js_min (((num (sw_n sw) - num (sw_startN sw))
                                           / (num (sw_endN sw) - num (sw_startN sw))) * Fin 100)
                                         (Fin 100)\<rparr>)"
proof (cases "sw_n sw \<le> sw_endN sw")
  case False
  with assms show ?thesis by (auto simp: continue_sweep_def finally_block_def)
next
  case True
  show ?thesis
  proof (cases "measureFLOPS (env (sw_n sw)) (sw_n sw) (sw_measurements sw)")
    case (Inl e)
    with assms True show ?thesis
      by (auto simp: continue_sweep_def loop_body_def Let_def finally_block_def)
  next
    case (Inr m)
    with assms True have "r = Some (sw\<lparr>sw_dataPoints := sw_dataPoints sw @
              [\<lparr>dp_n = sw_n sw, dp_time = avgTime m, dp_operations = m_flops m,
                dp_flops = avgFLOPS m, dp_gflops = gflops m, dp_teraflops = teraflops m,
                dp_teraflopsSeconds = teraflopsSeconds m,
                dp_theoretical = (Fin 2 * js_pow (num (sw_n sw)) 3 - js_pow (num (sw_n sw)) 2)
                                 * Fin 0.000001,
                dp_standardDeviation = Some (stdDev m)\<rparr>],
              sw_totalTeraflopsSeconds := sw_totalTeraflopsSeconds sw + teraflopsSeconds m\<rparr>)"
      and "s' = s\<lparr>currentTest := test_label (sw_n sw) (sw_measurements sw),
                      progress := js_min (((num (sw_n sw) - num (sw_startN sw))
                                           / (num (sw_endN sw) - num (sw_startN sw))) * Fin 100)
                                         (Fin 100)\<rparr>"
      by (auto simp: continue_sweep_def loop_body_def Let_def)
    with True show ?thesis by blast
  qed
qed

lemma run_to_end_idle:
  assumes "run_to_end env c = Some y"
  shows "(fst c = None \<longrightarrow> \<not> isRunning (snd c) \<and> progress (snd c) = 0 \<and> currentTest (snd c) = [])
         \<longrightarrow> \<not> isRunning y \<and> progress y = 0 \<and> currentTest y = []"
proof (rule run_to_end.raw_induct[where P = "\<lambda>env c y.
         (fst c = None \<longrightarrow> \<not> isRunning (snd c) \<and> progress (snd c) = 0 \<and> currentTest (snd c) = [])
         \<longrightarrow> \<not> isRunning y \<and> progress y = 0 \<and> currentTest y = []", OF _ assms])
  fix run :: "(nat \<Rightarrow> nat \<Rightarrow> trial) \<Rightarrow> sweep option \<times> app_state \<Rightarrow> app_state option"
  fix env c y
  assume IH: "\<And>e b y. run e b = Some y \<Longrightarrow>
         (fst b = None \<longrightarrow> \<not> isRunning (snd b) \<and> progress (snd b) = 0 \<and> currentTest (snd b) = [])
         \<longrightarrow> \<not> isRunning y \<and> progress y = 0 \<and> currentTest y = []"
    and eq: "(case c of (None, s) \<Rightarrow> Some s
              | (Some sw, s) \<Rightarrow> run env (resume_sweep env sw s)) = Some y"
  show "(fst c = None \<longrightarrow> \<not> isRunning (snd c) \<and> progress (snd c) = 0 \<and> currentTest (snd c) = [])
         \<longrightarrow> \<not> isRunning y \<and> progress y = 0 \<and> currentTest y = []"
  proof (cases c)
    case (Pair r s)
    show ?thesis
    proof (cases r)
      case None
      with eq Pair show ?thesis by simp
    next
      case (Some sw)
      with eq Pair have run: "run env (resume_sweep env sw s) = Some y" by simp
      obtain r' s' where c': "resume_sweep env sw s = (r', s')" by (cases "resume_sweep env sw s")
      then have "fst (resume_sweep env sw s) = None \<longrightarrow>
                 \<not> isRunning (snd (resume_sweep env sw s))
                 \<and> progress (snd (resume_sweep env sw s)) = 0
                 \<and> currentTest (snd (resume_sweep env sw s)) = []"
        using continue_sweep_cases[of env "sw\<lparr>sw_n := sw_n sw + sw_step sw\<rparr>" s r' s']
        by (auto simp: resume_sweep_def)
      with IH[OF run] show ?thesis by blast
    qed
  qed
qed

lemma start_sweep_idle:
  "\<not> isRunning s \<Longrightarrow>
   start_sweep env s =
     continue_sweep env
       \<lparr>sw_startN = startN s, sw_endN = endN s, sw_step = step s,
        sw_measurements = measurements s, sw_n = startN s,
        sw_dataPoints = [], sw_totalTeraflopsSeconds = 0\<rparr>
       (s\<lparr>isRunning := True, progress := 0, results := None, currentTest := []\<rparr>)"
  by (simp add: start_sweep_def)

lemma progression_set:
  fixes a d e :: nat
  assumes "0 < d" and "a \<le> e"
  shows "set (map (\<lambda>k. a + k * d) [0..<(e - a) div d + 1]) = {m. \<exists>k. m = a + k * d \<and> m \<le> e}"
proof -
  have iff: "(k < (e - a) div d + 1) = (a + k * d \<le> e)" for k
  proof -
    have "(k < (e - a) div d + 1) = (k \<le> (e - a) div d)" by linarith
    also have "\<dots> = (k * d \<le> e - a)" using assms(1) by (rule less_eq_div_iff_mult_less_eq)
    also have "\<dots> = (a + k * d \<le> e)" using assms(2) by linarith
    finally show ?thesis .
  qed
  have "set (map (\<lambda>k. a + k * d) [0..<(e - a) div d + 1])
        = (\<lambda>k. a + k * d) ` {k. k < (e - a) div d + 1}"
    by (simp only: set_map set_upt atLeast0LessThan lessThan_def)
  also have "\<dots> = (\<lambda>k. a + k * d) ` {k. a + k * d \<le> e}" by (simp only: iff)
  also have "\<dots> = {m. \<exists>k. m = a + k * d \<and> m \<le> e}" by blast
  finally show ?thesis .
qed

lemma progression_increasing:
  fixes a d :: nat
  assumes "0 < d"
  shows "sorted_wrt (<) (map (\<lambda>k. a + k * d) [0..<c])"
proof -
  have "sorted_wrt (\<lambda>x y. a + x * d < a + y * d) [0..<c]"
    by (rule sorted_wrt_mono_rel[of "[0..<c]" "(<)"]) (use assms in simp_all)
  then show ?thesis by (simp only: sorted_wrt_map)
qed

text \<open>
  C3.  For every configuration with \<open>startN \<le> endN\<close> and \<open>step > 0\<close>, a sweep that is
  started when none is running, and none of whose trials throws, ends and publishes a
  sequence of points whose sizes are \<open>startN, startN + step, \<dots>\<close> up to the last value
  \<open>\<le> endN\<close>: the sequence has \<open>(endN - startN) div step + 1\<close> points, its sizes are
  strictly increasing, and they are exactly the members of the progression that are
  \<open>\<le> endN\<close>.
\<close>

theorem C3_sweep_sizes:
  assumes "\<not> isRunning s" and "startN s \<le> endN s" and "0 < step s"
    and "\<forall>k i. startN s + k * step s \<le> endN s \<and> i < measurements s
           \<longrightarrow> failure (env (startN s + k * step s) i) = None"
  shows "\<exists>s' r. runAnalysis env s = Some s' \<and> results s' = Some r
           \<and> map dp_n (dataPoints r)
               = map (\<lambda>k. startN s + k * step s) [0..<(endN s - startN s) div step s + 1]
           \<and> length (dataPoints r) = (endN s - startN s) div step s + 1
           \<and> sorted_wrt (<) (map dp_n (dataPoints r))
           \<and> set (map dp_n (dataPoints r)) = {m. \<exists>k. m = startN s + k * step s \<and> m \<le> endN s}"
proof -
  let ?sw = "\<lparr>sw_startN = startN s, sw_endN = endN s, sw_step = step s,
              sw_measurements = measurements s, sw_n = startN s,
              sw_dataPoints = [], sw_totalTeraflopsSeconds = 0\<rparr>"
  let ?s0 = "s\<lparr>isRunning := True, progress := 0, results := None, currentTest := []\<rparr>"
  have "\<exists>s' r. run_to_end env (continue_sweep env ?sw ?s0) = Some s' \<and> results s' = Some r
           \<and> map dp_n (dataPoints r) =
               map dp_n (sw_dataPoints ?sw)
               @ map (\<lambda>k. sw_n ?sw + k * sw_step ?sw)
                   [0..<(if sw_n ?sw \<le> sw_endN ?sw
                         then (sw_endN ?sw - sw_n ?sw) div sw_step ?sw + 1 else 0)]"
    by (rule sweep_completes) (use assms in simp_all)
  then obtain s' r where run: "runAnalysis env s = Some s'" and r: "results s' = Some r"
    and sizes: "map dp_n (dataPoints r)
               = map (\<lambda>k. startN s + k * step s) [0..<(endN s - startN s) div step s + 1]"
    using assms(1,2) by (auto simp: runAnalysis_def start_sweep_idle)
  have "length (map dp_n (dataPoints r)) = (endN s - startN s) div step s + 1"
    unfolding sizes by simp
  then have len: "length (dataPoints r) = (endN s - startN s) div step s + 1" by simp
  have inc: "sorted_wrt (<) (map dp_n (dataPoints r))"
    unfolding sizes using assms(3) by (rule progression_increasing)
  have mem: "set (map dp_n (dataPoints r)) = {m. \<exists>k. m = startN s + k * step s \<and> m \<le> endN s}"
    unfolding sizes using assms(3,2) by (rule progression_set)
  from run r sizes len inc mem show ?thesis by blast
qed

theorem C3_sweep_sizes_witness:
  "\<exists>s' r. runAnalysis
       (\<lambda>n i. \<lparr>randomA = (\<lambda>i j. 1 / 2), randomB = (\<lambda>i j. 1 / 4), startTime = 0, endTime = 5,
                failure = None\<rparr>)
       \<lparr>startN = 100, endN = 300, step = 100, measurements = 1, isRunning = False,
        progress = 0, results = None, currentTest = [], console = []\<rparr> = Some s'
     \<and> results s' = Some r \<and> map dp_n (dataPoints r) = [100, 200, 300]
     \<and> length (dataPoints r) = 3"
proof -
  have "[0..<3] = [0, 1, 2]" by (simp add: upt_rec)
  with C3_sweep_sizes[of
      "\<lparr>startN = 100, endN = 300, step = 100, measurements = 1, isRunning = False,
        progress = 0, results = None, currentTest = [], console = []\<rparr>"
      "\<lambda>n i. \<lparr>randomA = (\<lambda>i j. 1 / 2), randomB = (\<lambda>i j. 1 / 4), startTime = 0, endTime = 5,
                failure = None\<rparr>"]
  have "\<exists>s' r. runAnalysis
       (\<lambda>n i. \<lparr>randomA = (\<lambda>i j. 1 / 2), randomB = (\<lambda>i j. 1 / 4), startTime = 0, endTime = 5,
                failure = None\<rparr>)
       \<lparr>startN = 100, endN = 300, step = 100, measurements = 1, isRunning = False,
        progress = 0, results = None, currentTest = [], console = []\<rparr> = Some s'
     \<and> results s' = Some r \<and> map dp_n (dataPoints r) = [100, 200, 300]
     \<and> length (dataPoints r) = 3
     \<and> sorted_wrt (<) (map dp_n (dataPoints r))
     \<and> set (map dp_n (dataPoints r)) = {m. \<exists>k. m = 100 + k * 100 \<and> m \<le> 300}"
    by simp
  then show ?thesis by (elim exE conjE, intro exI conjI) assumption+
qed

text \<open>
  C9.  Every call of \<^verbatim>\<open>runAnalysis\<close> that starts a sweep and completes, normally or not,
  leaves \<^verbatim>\<open>isRunning\<close> false, the progress 0 and the label empty; with \<open>step > 0\<close> it
  does complete.  If a trial of the sweep throws, the call completes all the same: the
  exception is caught and logged, and the result stays absent.
\<close>

theorem C9_abort_and_reset:
  "(\<not> isRunning s \<and> runAnalysis env s = Some s'
      \<longrightarrow> \<not> isRunning s' \<and> progress s' = 0 \<and> currentTest s' = [])
   \<and> (\<not> isRunning s \<and> 0 < step s \<longrightarrow> (\<exists>t. runAnalysis env s = Some t))
   \<and> (\<not> isRunning s \<and> startN s + k * step s \<le> endN s \<and> i < measurements s
        \<and> failure (env (startN s + k * step s) i) \<noteq> None
      \<longrightarrow> (\<exists>t e. runAnalysis env s = Some t \<and> results t = None \<and> console t = console s @ [e]
             \<and> \<not> isRunning t \<and> progress t = 0 \<and> currentTest t = []))"
proof (intro conjI impI)
  assume h: "\<not> isRunning s \<and> runAnalysis env s = Some s'"
  then have run: "run_to_end env (start_sweep env s) = Some s'" by (simp add: runAnalysis_def)
  obtain r0 s0 where c: "start_sweep env s = (r0, s0)" by (cases "start_sweep env s")
  with h continue_sweep_cases[of env _ _ r0 s0]
  have "fst (start_sweep env s) = None \<longrightarrow> \<not> isRunning (snd (start_sweep env s))
          \<and> progress (snd (start_sweep env s)) = 0 \<and> currentTest (snd (start_sweep env s)) = []"
    by (auto simp: start_sweep_idle)
  with run_to_end_idle[OF run]
  show "\<not> isRunning s'" "progress s' = 0" "currentTest s' = []" by blast+
next
  assume "\<not> isRunning s \<and> 0 < step s"
  then show "\<exists>t. runAnalysis env s = Some t"
    using sweep_terminates[of _ env] by (simp add: runAnalysis_def start_sweep_idle)
next
  assume h: "\<not> isRunning s \<and> startN s + k * step s \<le> endN s \<and> i < measurements s
        \<and> failure (env (startN s + k * step s) i) \<noteq> None"
  let ?sw = "\<lparr>sw_startN = startN s, sw_endN = endN s, sw_step = step s,
              sw_measurements = measurements s, sw_n = startN s,
              sw_dataPoints = [], sw_totalTeraflopsSeconds = 0\<rparr>"
  let ?s0 = "s\<lparr>isRunning := True, progress := 0, results := None, currentTest := []\<rparr>"
  have "\<exists>t e. run_to_end env (continue_sweep env ?sw ?s0) = Some t \<and> results t = results ?s0
           \<and> console t = console ?s0 @ [e]"
    by (rule sweep_aborts[where k = k and i = i]) (use h in simp_all)
  then obtain t e where t: "runAnalysis env s = Some t" "results t = None"
      "console t = console s @ [e]"
    using h by (auto simp: runAnalysis_def start_sweep_idle)
  have run: "run_to_end env (start_sweep env s) = Some t" using t(1) by (simp add: runAnalysis_def)
  obtain r0 s0 where c: "start_sweep env s = (r0, s0)" by (cases "start_sweep env s")
  with h continue_sweep_cases[of env _ _ r0 s0]
  have "fst (start_sweep env s) = None \<longrightarrow> \<not> isRunning (snd (start_sweep env s))
          \<and> progress (snd (start_sweep env s)) = 0 \<and> currentTest (snd (start_sweep env s)) = []"
    by (auto simp: start_sweep_idle)
  with run_to_end_idle[OF run] t
  show "\<exists>t e. runAnalysis env s = Some t \<and> results t = None \<and> console t = console s @ [e]
             \<and> \<not> isRunning t \<and> progress t = 0 \<and> currentTest t = []"
    by blast
qed

theorem C9_abort_and_reset_witness:
  "\<exists>t e. runAnalysis
       (\<lambda>n i. \<lparr>randomA = (\<lambda>i j. 1 / 2), randomB = (\<lambda>i j. 1 / 4), startTime = 0, endTime = 5,
                failure = (if n = 200 then Some RangeError else None)\<rparr>)
       \<lparr>startN = 100, endN = 300, step = 100, measurements = 1, isRunning = False,
        progress = 0, results = None, currentTest = [], console = []\<rparr> = Some t
     \<and> results t = None \<and> console t = [e]
     \<and> \<not> isRunning t \<and> progress t = 0 \<and> currentTest t = []"
  using C9_abort_and_reset[of
      "\<lparr>startN = 100, endN = 300, step = 100, measurements = 1, isRunning = False,
        progress = 0, results = None, currentTest = [], console = []\<rparr>"
      "\<lambda>n i. \<lparr>randomA = (\<lambda>i j. 1 / 2), randomB = (\<lambda>i j. 1 / 4), startTime = 0, endTime = 5,
                failure = (if n = 200 then Some RangeError else None)\<rparr>" _ 1 0]
  by simp

section \<open>Progress of a single-size sweep\<close>

text \<open>
  C7.  With \<open>endN = startN\<close>, which the input \<^verbatim>\<open>N final\<close> accepts (it stores
  \<^verbatim>\<open>Math.max(startN, value)\<close>), the sweep has one size.  After it is processed,
  \<^verbatim>\<open>(n - startN) / (endN - startN)\<close> is \<open>0 / 0\<close>, and \<^verbatim>\<open>Math.min(NaN, 100)\<close> is NaN: the
  call reaches its \<^verbatim>\<open>await\<close> with the progress NaN, which is neither the percentage of
  the sizes done nor a number of the interval \<open>[0, 100]\<close>.
\<close>

theorem C7_single_size_progress:
  "let env = (\<lambda>n i. \<lparr>randomA = (\<lambda>i j. 1 / 2), randomB = (\<lambda>i j. 1 / 4), startTime = 0,
                       endTime = 5, failure = None\<rparr>);
       s0 = \<lparr>startN = 100, endN = 100, step = 100, measurements = 3, isRunning = False,
             progress = 0, results = None, currentTest = [], console = []\<rparr>;
       c = start_sweep env s0
   in (\<exists>sw. fst c = Some sw \<and> sw_startN sw = 100 \<and> sw_endN sw = 100 \<and> sw_n sw = 100
            \<and> map dp_n (sw_dataPoints sw) = [100])
      \<and> isRunning (snd c) \<and> progress (snd c) = NaN
      \<and> js_nonneg (progress (snd c)) = False"
proof -
  define env :: "nat \<Rightarrow> nat \<Rightarrow> trial" where
    "env = (\<lambda>n i. \<lparr>randomA = (\<lambda>i j. 1 / 2), randomB = (\<lambda>i j. 1 / 4), startTime = 0,
                    endTime = 5, failure = None\<rparr>)"
  define s0 where "s0 = \<lparr>startN = 100, endN = 100, step = 100, measurements = 3,
      isRunning = False, progress = 0, results = None, currentTest = [], console = []\<rparr>"
  let ?sw = "\<lparr>sw_startN = startN s0, sw_endN = endN s0, sw_step = step s0,
              sw_measurements = measurements s0, sw_n = startN s0,
              sw_dataPoints = [], sw_totalTeraflopsSeconds = 0\<rparr>"
  let ?s1 = "s0\<lparr>isRunning := True, progress := 0, results := None, currentTest := []\<rparr>"
  have "\<exists>point tfs. dp_n point = sw_n ?sw \<and>
           continue_sweep env ?sw ?s1 =
             (Some (?sw\<lparr>sw_dataPoints := sw_dataPoints ?sw @ [point],
                        sw_totalTeraflopsSeconds := tfs\<rparr>),
              ?s1\<lparr>currentTest := test_label (sw_n ?sw) (sw_measurements ?sw),
                   progress := js_min (((num (sw_n ?sw) - num (sw_startN ?sw))
                                        / (num (sw_endN ?sw) - num (sw_startN ?sw))) * Fin 100)
                                      (Fin 100)\<rparr>)"
    by (rule continue_sweep_ok) (simp_all add: s0_def env_def)
  then obtain point tfs where p: "dp_n point = 100"
    and c: "start_sweep env s0 =
             (Some (?sw\<lparr>sw_dataPoints := [point], sw_totalTeraflopsSeconds := tfs\<rparr>),
              ?s1\<lparr>currentTest := test_label 100 3,
                   progress := js_min (((num 100 - num 100) / (num 100 - num 100)) * Fin 100)
                                      (Fin 100)\<rparr>)"
    by (auto simp: start_sweep_def s0_def)
  have nan: "js_min (((num 100 - num 100) / (num 100 - num 100)) * Fin 100) (Fin 100) = NaN"
    by (simp add: num_def js_min_def)
  show ?thesis
    unfolding Let_def env_def[symmetric] s0_def[symmetric] c nan
    by (simp add: p s0_def js_nonneg_def zero_jsnum_def)
qed

section \<open>Two run requests from one render\<close>




end
